theory Spec2Isabelle
  imports Complex_Main
begin

section \<open>Values, errors and the world the extension runs in\<close>

text \<open>
  The extension keeps its data in \<^verbatim>\<open>chrome.storage.local\<close>, a key/value store of
  JSON-like values. A history entry is the object that \<^verbatim>\<open>HistoryManager.add\<close> and
  \<^verbatim>\<open>StorageManager.saveToHistory\<close> build: content, timestamp, id and (only for the
  history manager) a type. Arrays in the store are arrays of such entries; objects are
  property lists in insertion order. Numbers are modelled as integers. Under the
  statistics key the store holds what \<^verbatim>\<open>logPerformance\<close> writes: for each named
  metric the count, total, minimum, maximum and average of the durations logged so far
  (the minimum of a fresh metric is \<^verbatim>\<open>Infinity\<close>, here \<open>None\<close>).
\<close>

record metric =
  m_count :: nat
  m_total :: int
  m_min :: "int option"
  m_max :: int
  m_avg :: rat

record entry =
  content :: string
  timestamp :: int
  item_id :: string
  item_type :: "string option"

datatype jsval =
    Undefined
  | Null
  | Bool bool
  | Num int
  | Str string
  | Item entry
  | Arr "entry list"
  | Stats "(string \<times> metric) list"
  | Obj "(string \<times> jsval) list"

text \<open>
  \<^verbatim>\<open>ERROR_TYPES\<close> as listed in docs/ARCHITECTURE.md, section 4.1. A thrown value is an
  \<^verbatim>\<open>AppError\<close> (type, numeric code, and the error kept under \<^verbatim>\<open>details.error\<close>, if
  any), the \<^verbatim>\<open>chrome.runtime.lastError\<close> a storage promise rejects with, or a native
  exception of the platform (named by its class).
\<close>

datatype error_type =
    NETWORK_ERROR | STORAGE_ERROR | PERMISSION_ERROR
  | VALIDATION_ERROR | RUNTIME_ERROR | UNKNOWN_ERROR

datatype thrown =
    AppError error_type nat "thrown option"
  | LastError
  | Native string

text \<open>
  Effects that leave the program are appended to a trace, oldest first: every call of
  \<^verbatim>\<open>chrome.storage.local.set\<close> (with its outcome), every retry timer, every
  notification shown on the page and every event handed to subscribers.
\<close>

datatype notice_kind = Success | Error | Warning | Info

datatype notice_text =
    SelectionOn
  | SelectionOff
  | Recognized string
  | NotRecognized
  | RecognitionFailed thrown

datatype effect =
    SetAttempt string jsval bool
  | RetryTimer nat
  | Notification notice_text notice_kind
  | Emit string jsval

record world =
  local_items :: "string \<rightharpoonup> jsval"
  faults :: "bool list"
  cache :: "string \<rightharpoonup> jsval"
  errorHistory :: "thrown list"
  trace :: "effect list"

text \<open>
  \<open>local_items\<close> is the content of \<^verbatim>\<open>chrome.storage.local\<close>; \<open>faults\<close> scripts the
  platform: each call of the storage API takes the next entry, and \<open>True\<close> means the
  call ends with \<^verbatim>\<open>chrome.runtime.lastError\<close> set (no entry left: the call succeeds).
  \<open>cache\<close> is \<^verbatim>\<open>StorageManager.cache\<close> and \<open>errorHistory\<close> is
  \<^verbatim>\<open>ErrorHandler.errorHistory\<close>. Asynchronous operations run to completion, one after
  the other. Logging is left out, and so are the calls of \<^verbatim>\<open>logPerformance\<close> that
  \<^verbatim>\<open>get\<close> and \<^verbatim>\<open>set\<close> start without awaiting them (they touch only the statistics
  key, under other metrics); the call that \<^verbatim>\<open>recognizeFromRect\<close> awaits is modelled.
\<close>

definition next_fault :: "world \<Rightarrow> bool \<times> world" where
  "next_fault w = (case faults w of [] \<Rightarrow> (False, w) | b # bs \<Rightarrow> (b, w\<lparr>faults := bs\<rparr>))"

definition attempts :: "effect list \<Rightarrow> nat" where
  "attempts tr = length [e \<leftarrow> tr. case e of SetAttempt _ _ _ \<Rightarrow> True | _ \<Rightarrow> False]"

definition delays :: "effect list \<Rightarrow> nat list" where
  "delays tr = concat (map (\<lambda>e. case e of RetryTimer d \<Rightarrow> [d] | _ \<Rightarrow> []) tr)"

definition notifications :: "effect list \<Rightarrow> (notice_text \<times> notice_kind) list" where
  "notifications tr = concat (map (\<lambda>e. case e of Notification m k \<Rightarrow> [(m, k)] | _ \<Rightarrow> []) tr)"

text \<open>
  Modelled from the spec: core/constants.js is not among the sources. The history cap is
  100 (spec, section 3); the storage keys are the literals the other modules use. The
  performance statistics are a third persisted record (spec, section 6), so their key is
  one of its own; the metric of a recognition has a name of its own as well.
\<close>

definition HISTORY_LIMIT :: nat where "HISTORY_LIMIT = 100"
definition QR_HISTORY :: string where "QR_HISTORY = ''qrHistory''"
definition QR_SETTINGS :: string where "QR_SETTINGS = ''qrSettings''"
definition PERFORMANCE_STATS :: string where "PERFORMANCE_STATS = ''performanceStats''"
definition QR_RECOGNITION_TIME :: string where "QR_RECOGNITION_TIME = ''qrRecognitionTime''"

section \<open>ErrorHandler\<close>

definition maxHistorySize :: nat where "maxHistorySize = 50"

definition addToHistory :: "thrown \<Rightarrow> world \<Rightarrow> world" where
  "addToHistory error w =
     (let h = errorHistory w @ [error]
      in w\<lparr>errorHistory := (if length h > maxHistorySize then tl h else h)\<rparr>)"

definition tryStorageRecovery :: "world \<Rightarrow> world" where
  "tryStorageRecovery w =
     (case next_fault w of
        (True, w1) \<Rightarrow> w1
      | (False, w1) \<Rightarrow> w1\<lparr>local_items := Map.empty\<rparr>)"

definition tryRecovery :: "thrown \<Rightarrow> world \<Rightarrow> world" where
  "tryRecovery error w =
     (case error of
        AppError STORAGE_ERROR _ _ \<Rightarrow> tryStorageRecovery w
      | _ \<Rightarrow> w)"

definition handleError :: "thrown \<Rightarrow> world \<Rightarrow> thrown \<times> world" where
  "handleError error w =
     (let appError = (case error of
                        AppError _ _ _ \<Rightarrow> error
                      | _ \<Rightarrow> AppError UNKNOWN_ERROR 0 (Some error))
      in (appError, tryRecovery appError (addToHistory appError w)))"

section \<open>StorageManager\<close>

definition maxRetries :: nat where "maxRetries = 3"
definition retryDelay :: nat where "retryDelay = 1000"

definition chrome_set :: "string \<Rightarrow> jsval \<Rightarrow> world \<Rightarrow> bool \<times> world" where
  "chrome_set key v w =
     (case next_fault w of
        (True, w1) \<Rightarrow> (True, w1\<lparr>trace := trace w1 @ [SetAttempt key v True]\<rparr>)
      | (False, w1) \<Rightarrow>
          (False, w1\<lparr>local_items := (local_items w1)(key \<mapsto> v),
                      trace := trace w1 @ [SetAttempt key v False]\<rparr>))"

function setWithRetry :: "string \<Rightarrow> jsval \<Rightarrow> nat \<Rightarrow> world \<Rightarrow> (thrown + unit) \<times> world" where
  "setWithRetry key v retryCount w =
     (case chrome_set key v w of
        (True, w1) \<Rightarrow>
          if retryCount < maxRetries
          then setWithRetry key v (retryCount + 1)
                 (w1\<lparr>trace := trace w1 @ [RetryTimer (retryDelay * (retryCount + 1))]\<rparr>)
          else (Inl LastError, w1)
      | (False, w1) \<Rightarrow> (Inr (), w1))"
  by pat_completeness auto
termination
  by (relation "measure (\<lambda>(key, v, retryCount, w). maxRetries - retryCount)") auto

declare setWithRetry.simps [simp del]

definition set_value :: "string \<Rightarrow> jsval \<Rightarrow> world \<Rightarrow> (thrown + bool) \<times> world" where
  "set_value key v w =
     (case setWithRetry key v 0 w of
        (Inr _, w1) \<Rightarrow> (Inr True, w1\<lparr>cache := (cache w1)(key \<mapsto> v)\<rparr>)
      | (Inl error, w1) \<Rightarrow>
          (case handleError (AppError STORAGE_ERROR 2002 (Some error)) w1 of
             (e, w2) \<Rightarrow> (Inl e, w2)))"

definition getFromStorage :: "string \<Rightarrow> world \<Rightarrow> (thrown + jsval) \<times> world" where
  "getFromStorage key w =
     (case next_fault w of
        (True, w1) \<Rightarrow> (Inl LastError, w1)
      | (False, w1) \<Rightarrow>
          (Inr (case local_items w1 key of None \<Rightarrow> Undefined | Some v \<Rightarrow> v), w1))"

definition cache_get :: "world \<Rightarrow> string \<Rightarrow> jsval" where
  "cache_get w key = (case cache w key of None \<Rightarrow> Undefined | Some v \<Rightarrow> v)"

definition get_value :: "string \<Rightarrow> jsval \<Rightarrow> world \<Rightarrow> (thrown + jsval) \<times> world" where
  "get_value key defaultValue w =
     (let cachedValue = cache_get w key
      in if cachedValue \<noteq> Undefined then (Inr cachedValue, w)
         else
           (case getFromStorage key w of
              (Inl error, w1) \<Rightarrow>
                (case handleError (AppError STORAGE_ERROR 2001 (Some error)) w1 of
                   (e, w2) \<Rightarrow> (Inl e, w2))
            | (Inr result, w1) \<Rightarrow>
                (let v = (if result \<noteq> Undefined then result else defaultValue)
                 in (Inr v, w1\<lparr>cache := (cache w1)(key \<mapsto> v)\<rparr>))))"

text \<open>
  Each cache entry is deleted by a timer five seconds after it was written. The timer is
  an event of the environment: \<open>expire key\<close> is what it does when it fires.
\<close>

definition expire :: "string \<Rightarrow> world \<Rightarrow> world" where
  "expire key w = w\<lparr>cache := (cache w)(key := None)\<rparr>"

definition isArray :: "jsval \<Rightarrow> bool" where
  "isArray v = (case v of Arr _ \<Rightarrow> True | _ \<Rightarrow> False)"

definition elements :: "jsval \<Rightarrow> entry list" where
  "elements v = (case v of Arr es \<Rightarrow> es | _ \<Rightarrow> [])"

definition getHistory :: "world \<Rightarrow> (thrown + entry list) \<times> world" where
  "getHistory w =
     (case get_value QR_HISTORY (Arr []) w of
        (Inl e, w1) \<Rightarrow> (Inl e, w1)
      | (Inr history, w1) \<Rightarrow> (Inr (if isArray history then elements history else []), w1))"

definition throw_wrapped :: "error_type \<Rightarrow> nat \<Rightarrow> thrown \<Rightarrow> world \<Rightarrow> (thrown + 'a) \<times> world" where
  \<comment> \<open>\<^verbatim>\<open>throw errorHandler.handleError(new AppError(msg, type, code, {..., error}))\<close>\<close>
  "throw_wrapped t c error w =
     (case handleError (AppError t c (Some error)) w of (e, w1) \<Rightarrow> (Inl e, w1))"

definition throw_handled :: "thrown \<Rightarrow> world \<Rightarrow> (thrown + 'a) \<times> world" where
  \<comment> \<open>\<^verbatim>\<open>throw errorHandler.handleError(error)\<close>\<close>
  "throw_handled error w = (case handleError error w of (e, w1) \<Rightarrow> (Inl e, w1))"

text \<open>
  \<^verbatim>\<open>getHistory\<close> hands out the very array object the cache holds (whenever the cached
  value is an array), so \<^verbatim>\<open>unshift\<close>, \<^verbatim>\<open>splice\<close>, \<^verbatim>\<open>sort\<close> and the assignment to
  \<^verbatim>\<open>length\<close> change the cached value at once, before anything is written to the store.
\<close>

definition mutate_cached :: "entry list \<Rightarrow> world \<Rightarrow> world" where
  "mutate_cached history w =
     (if isArray (cache_get w QR_HISTORY)
      then w\<lparr>cache := (cache w)(QR_HISTORY \<mapsto> Arr history)\<rparr> else w)"

definition cap_length :: "nat \<Rightarrow> 'a list \<Rightarrow> 'a list" where
  \<comment> \<open>\<^verbatim>\<open>if (history.length > n) history.length = n\<close>\<close>
  "cap_length n xs = (if length xs > n then take n xs else xs)"

definition splice1 :: "nat \<Rightarrow> 'a list \<Rightarrow> 'a list" where
  \<comment> \<open>what is left of the array after \<^verbatim>\<open>splice(index, 1)\<close>, for an index in range\<close>
  "splice1 i xs = take i xs @ drop (Suc i) xs"

definition saveToHistory :: "string \<Rightarrow> int \<Rightarrow> string \<Rightarrow> world \<Rightarrow> (thrown + entry) \<times> world" where
  \<comment> \<open>\<open>now\<close> is \<^verbatim>\<open>Date.now()\<close> and \<open>new_id\<close> is what \<^verbatim>\<open>generateId()\<close> returns\<close>
  "saveToHistory c now new_id w =
     (case getHistory w of
        (Inl error, w1) \<Rightarrow> throw_wrapped STORAGE_ERROR 2005 error w1
      | (Inr history, w1) \<Rightarrow>
          (let newEntry = \<lparr>content = c, timestamp = now, item_id = new_id, item_type = None\<rparr>;
               history1 = cap_length HISTORY_LIMIT (newEntry # history)
           in case set_value QR_HISTORY (Arr history1) (mutate_cached history1 w1) of
                (Inl error, w2) \<Rightarrow> throw_wrapped STORAGE_ERROR 2005 error w2
              | (Inr _, w2) \<Rightarrow> (Inr newEntry, w2)))"

definition deleteFromHistory :: "int \<Rightarrow> world \<Rightarrow> (thrown + entry) \<times> world" where
  "deleteFromHistory index w =
     (case getHistory w of
        (Inl error, w1) \<Rightarrow> throw_handled error w1
      | (Inr history, w1) \<Rightarrow>
          if index \<ge> 0 \<and> index < int (length history)
          then
            (let deletedItem = history ! nat index;
                 history1 = splice1 (nat index) history
             in case set_value QR_HISTORY (Arr history1) (mutate_cached history1 w1) of
                  (Inl error, w2) \<Rightarrow> throw_handled error w2
                | (Inr _, w2) \<Rightarrow> (Inr deletedItem, w2))
          else throw_handled (AppError VALIDATION_ERROR 3001 None) w1)"

definition falsy :: "jsval \<Rightarrow> bool" where
  "falsy v = (v = Undefined \<or> v = Null \<or> v = Bool False \<or> v = Num 0 \<or> v = Str [])"

definition getSettings :: "world \<Rightarrow> (thrown + jsval) \<times> world" where
  "getSettings w =
     (case get_value QR_SETTINGS Null w of
        (Inl e, w1) \<Rightarrow> (Inl e, w1)
      | (Inr settings, w1) \<Rightarrow> (Inr (if falsy settings then Obj [] else settings), w1))"

definition saveSettings_sm :: "jsval \<Rightarrow> world \<Rightarrow> (thrown + bool) \<times> world" where
  \<comment> \<open>\<^verbatim>\<open>StorageManager.saveSettings\<close>\<close>
  "saveSettings_sm settings w =
     (case set_value QR_SETTINGS settings w of
        (Inl error, w1) \<Rightarrow> throw_wrapped STORAGE_ERROR 2007 error w1
      | (Inr _, w1) \<Rightarrow> (Inr True, w1))"

text \<open>
  \<^verbatim>\<open>logPerformance(metric, startTime)\<close>; \<open>now\<close> is its reading of
  \<^verbatim>\<open>performance.now()\<close>. The statistics object it gets is the cached one, so the new
  numbers are in the cache before they are written. Whatever is thrown inside is caught
  and only logged: a failed read or write, and the \<^verbatim>\<open>TypeError\<close> of reading or setting a
  property on a stored value that is no object (an object of another shape under this key
  is outside the model).
\<close>

definition new_metric :: metric where
  \<comment> \<open>\<^verbatim>\<open>{count: 0, total: 0, min: Infinity, max: 0, avg: 0}\<close>\<close>
  "new_metric = \<lparr>m_count = 0, m_total = 0, m_min = None, m_max = 0, m_avg = 0\<rparr>"

definition add_sample :: "int \<Rightarrow> metric \<Rightarrow> metric" where
  "add_sample duration metricStats =
     (let c = m_count metricStats + 1;
          t = m_total metricStats + duration
      in \<lparr>m_count = c, m_total = t,
          m_min = Some (case m_min metricStats of None \<Rightarrow> duration | Some x \<Rightarrow> min x duration),
          m_max = max (m_max metricStats) duration,
          m_avg = of_int t / of_nat c\<rparr>)"

fun update_metric :: "string \<Rightarrow> metric \<Rightarrow> (string \<times> metric) list \<Rightarrow> (string \<times> metric) list" where
  "update_metric k v [] = [(k, v)]"
| "update_metric k v ((k1, v1) # kvs) =
     (if k = k1 then (k, v) # kvs else (k1, v1) # update_metric k v kvs)"

definition logPerformance :: "string \<Rightarrow> int \<Rightarrow> int \<Rightarrow> world \<Rightarrow> world" where
  "logPerformance metricName startTime now w =
     (let duration = now - startTime
      in case get_value PERFORMANCE_STATS (Stats []) w of
           (Inl error, w1) \<Rightarrow> w1
         | (Inr stats, w1) \<Rightarrow>
             (case stats of
                Stats kvs \<Rightarrow>
                  (let metricStats = (case map_of kvs metricName of
                                        None \<Rightarrow> new_metric | Some m \<Rightarrow> m);
                       stats1 = Stats (update_metric metricName (add_sample duration metricStats) kvs)
                   in snd (set_value PERFORMANCE_STATS stats1
                             (w1\<lparr>cache := (cache w1)(PERFORMANCE_STATS \<mapsto> stats1)\<rparr>)))
              | _ \<Rightarrow> w1))"

section \<open>Strings and regular expressions of the platform\<close>

text \<open>
  Strings are sequences of code units below 256. \<^verbatim>\<open>toLowerCase\<close> maps the letters A-Z
  and the upper-case letters of Latin-1; \<^verbatim>\<open>includes\<close> is the substring test.
\<close>

definition lower_char :: "char \<Rightarrow> char" where
  "lower_char c =
     (let n = of_char c :: nat
      in if (65 \<le> n \<and> n \<le> 90) \<or> (192 \<le> n \<and> n \<le> 222 \<and> n \<noteq> 215)
         then char_of (n + 32) else c)"

definition toLowerCase :: "string \<Rightarrow> string" where
  "toLowerCase s = map lower_char s"

fun startsWith :: "string \<Rightarrow> string \<Rightarrow> bool" where
  "startsWith s [] = True"
| "startsWith [] (p # ps) = False"
| "startsWith (c # cs) (p # ps) = (c = p \<and> startsWith cs ps)"

fun includes_str :: "string \<Rightarrow> string \<Rightarrow> bool" where
  "includes_str [] sub = (sub = [])"
| "includes_str (c # cs) sub = (startsWith (c # cs) sub \<or> includes_str cs sub)"

text \<open>
  The regular expressions of the sources use character classes, sequence, alternative and
  repetition, and are anchored at both ends, so \<^verbatim>\<open>test\<close> asks whether the whole string is
  in the language. The matcher computes Brzozowski derivatives.
\<close>

datatype cls =
    Chr char
  | Range char char
  | Space
  | Either cls cls
  | Except cls

fun in_cls :: "cls \<Rightarrow> char \<Rightarrow> bool" where
  "in_cls (Chr a) c = (c = a)"
| "in_cls (Range a b) c = ((of_char a :: nat) \<le> of_char c \<and> (of_char c :: nat) \<le> of_char b)"
| "in_cls Space c = ((of_char c :: nat) \<in> {9, 10, 11, 12, 13, 32, 160})"
| "in_cls (Either x y) c = (in_cls x c \<or> in_cls y c)"
| "in_cls (Except x) c = (\<not> in_cls x c)"

datatype rx =
    Zero
  | One
  | Atom cls
  | Seq rx rx
  | Alt rx rx
  | Star rx

fun nullable :: "rx \<Rightarrow> bool" where
  "nullable Zero = False"
| "nullable One = True"
| "nullable (Atom _) = False"
| "nullable (Seq r s) = (nullable r \<and> nullable s)"
| "nullable (Alt r s) = (nullable r \<or> nullable s)"
| "nullable (Star _) = True"

fun deriv :: "char \<Rightarrow> rx \<Rightarrow> rx" where
  "deriv c Zero = Zero"
| "deriv c One = Zero"
| "deriv c (Atom k) = (if in_cls k c then One else Zero)"
| "deriv c (Seq r s) =
     (if nullable r then Alt (Seq (deriv c r) s) (deriv c s) else Seq (deriv c r) s)"
| "deriv c (Alt r s) = Alt (deriv c r) (deriv c s)"
| "deriv c (Star r) = Seq (deriv c r) (Star r)"

fun test :: "rx \<Rightarrow> string \<Rightarrow> bool" where
  "test r [] = nullable r"
| "test r (c # cs) = test (deriv c r) cs"

fun exactly :: "nat \<Rightarrow> rx \<Rightarrow> rx" where
  \<comment> \<open>\<^verbatim>\<open>r{n}\<close>\<close>
  "exactly 0 r = One"
| "exactly (Suc n) r = Seq r (exactly n r)"

definition plus_rx :: "rx \<Rightarrow> rx" where
  \<comment> \<open>\<^verbatim>\<open>r+\<close>\<close>
  "plus_rx r = Seq r (Star r)"

definition at_least :: "nat \<Rightarrow> rx \<Rightarrow> rx" where
  \<comment> \<open>\<^verbatim>\<open>r{n,}\<close>\<close>
  "at_least n r = Seq (exactly n r) (Star r)"

section \<open>HistoryManager\<close>

text \<open>
  \<^verbatim>\<open>new URL(content)\<close> and \<^verbatim>\<open>localeCompare\<close> belong to the platform; the functions
  that use them take them as the parameters \<open>url\<close> (does the constructor accept the
  string?) and \<open>lc\<close>.
\<close>

definition emailRegex :: rx where
  \<comment> \<open>\<^verbatim>\<open>/^[^\s@]+@[^\s@]+\.[^\s@]+$/\<close>\<close>
  "emailRegex =
     (let n = Atom (Except (Either Space (Chr (CHR ''@''))))
      in Seq (plus_rx n) (Seq (Atom (Chr (CHR ''@'')))
           (Seq (plus_rx n) (Seq (Atom (Chr (CHR ''.''))) (plus_rx n)))))"

definition phone_cls :: cls where
  \<comment> \<open>\<^verbatim>\<open>[\d\s\-\+\(\)]\<close>\<close>
  "phone_cls =
     Either (Range (CHR ''0'') (CHR ''9'')) (Either Space (Either (Chr (CHR ''-''))
       (Either (Chr (CHR ''+'')) (Either (Chr (CHR ''('')) (Chr (CHR '')''))))))"

definition phoneRegex :: rx where
  \<comment> \<open>\<^verbatim>\<open>/^[\d\s\-\+\(\)]{10,}$/\<close>\<close>
  "phoneRegex = at_least 10 (Atom phone_cls)"

definition isUrl :: "(string \<Rightarrow> bool) \<Rightarrow> string \<Rightarrow> bool" where
  "isUrl url c = url c"

definition isEmail :: "string \<Rightarrow> bool" where
  "isEmail c = test emailRegex c"

definition isPhoneNumber :: "string \<Rightarrow> bool" where
  "isPhoneNumber c = test phoneRegex c"

definition detectContentType :: "(string \<Rightarrow> bool) \<Rightarrow> string \<Rightarrow> string" where
  "detectContentType url c =
     (if isUrl url c then ''url''
      else if isEmail c then ''email''
      else if isPhoneNumber c then ''phone''
      else ''text'')"

definition add :: "(string \<Rightarrow> bool) \<Rightarrow> string \<Rightarrow> int \<Rightarrow> string \<Rightarrow> world \<Rightarrow> (thrown + entry) \<times> world" where
  \<comment> \<open>\<^verbatim>\<open>add(content)\<close>, without metadata; \<open>now\<close> and \<open>new_id\<close> as in \<open>saveToHistory\<close>\<close>
  "add url c now new_id w =
     (if c = []
      then throw_wrapped STORAGE_ERROR 8102 (AppError VALIDATION_ERROR 8101 None) w
      else
        (let newItem = \<lparr>content = c, timestamp = now, item_id = new_id,
                         item_type = Some (detectContentType url c)\<rparr>
         in case getHistory w of
              (Inl error, w1) \<Rightarrow> throw_wrapped STORAGE_ERROR 8102 error w1
            | (Inr history, w1) \<Rightarrow>
                (let history1 = cap_length 100 (newItem # history)
                 in case set_value ''qrHistory'' (Arr history1) (mutate_cached history1 w1) of
                      (Inl error, w2) \<Rightarrow> throw_wrapped STORAGE_ERROR 8102 error w2
                    | (Inr _, w2) \<Rightarrow>
                        (Inr newItem,
                         w2\<lparr>trace := trace w2 @ [Emit ''historyAdded'' (Item newItem)]\<rparr>))))"

fun findIndex :: "('a \<Rightarrow> bool) \<Rightarrow> 'a list \<Rightarrow> nat option" where
  \<comment> \<open>\<open>None\<close> is the \<^verbatim>\<open>-1\<close> of the source\<close>
  "findIndex P [] = None"
| "findIndex P (x # xs) = (if P x then Some 0 else map_option Suc (findIndex P xs))"

definition delete :: "string \<Rightarrow> world \<Rightarrow> (thrown + entry) \<times> world" where
  "delete ident w =
     (case getHistory w of
        (Inl error, w1) \<Rightarrow> throw_wrapped STORAGE_ERROR 8202 error w1
      | (Inr history, w1) \<Rightarrow>
          (case findIndex (\<lambda>item. item_id item = ident) history of
             None \<Rightarrow> throw_wrapped STORAGE_ERROR 8202 (AppError VALIDATION_ERROR 8201 None) w1
           | Some index \<Rightarrow>
               (let deletedItem = history ! index;
                    history1 = splice1 index history
                in case set_value ''qrHistory'' (Arr history1) (mutate_cached history1 w1) of
                     (Inl error, w2) \<Rightarrow> throw_wrapped STORAGE_ERROR 8202 error w2
                   | (Inr _, w2) \<Rightarrow>
                       (Inr deletedItem,
                        w2\<lparr>trace := trace w2 @
                          [Emit ''historyDeleted''
                             (Obj [(''id'', Str ident), (''item'', Item deletedItem)])]\<rparr>))))"

text \<open>
  \<^verbatim>\<open>Array.prototype.sort\<close> is stable; with a comparator that orders the elements
  consistently its result is the one of stable insertion sort.
\<close>

fun insert_cmp :: "('a \<Rightarrow> 'a \<Rightarrow> int) \<Rightarrow> 'a \<Rightarrow> 'a list \<Rightarrow> 'a list" where
  "insert_cmp cmp x [] = [x]"
| "insert_cmp cmp x (y # ys) = (if cmp x y \<le> 0 then x # y # ys else y # insert_cmp cmp x ys)"

definition sort_cmp :: "('a \<Rightarrow> 'a \<Rightarrow> int) \<Rightarrow> 'a list \<Rightarrow> 'a list" where
  "sort_cmp cmp xs = foldr (insert_cmp cmp) xs []"

record view =
  searchQuery :: string
  filterType :: string
  sortBy :: string
  sortOrder :: string

definition initial_view :: view where
  \<comment> \<open>the fields as the constructor of \<^verbatim>\<open>HistoryManager\<close> sets them\<close>
  "initial_view = \<lparr>searchQuery = [], filterType = ''all'', sortBy = ''timestamp'', sortOrder = ''desc''\<rparr>"

definition filterAndSort :: "(string \<Rightarrow> string \<Rightarrow> int) \<Rightarrow> view \<Rightarrow> entry list \<Rightarrow> entry list" where
  "filterAndSort lc vw history =
     (let filtered1 = (if filterType vw \<noteq> ''all''
                       then filter (\<lambda>item. item_type item = Some (filterType vw)) history
                       else history);
          filtered2 = (if searchQuery vw \<noteq> []
                       then filter (\<lambda>item. includes_str (toLowerCase (content item)) (searchQuery vw))
                              filtered1
                       else filtered1)
      in if sortBy vw = ''timestamp''
         then sort_cmp (\<lambda>a b. let comparison = timestamp a - timestamp b
                               in if sortOrder vw = ''desc'' then - comparison else comparison)
                filtered2
         else if sortBy vw = ''content''
         then sort_cmp (\<lambda>a b. let comparison = lc (content a) (content b)
                               in if sortOrder vw = ''desc'' then - comparison else comparison)
                filtered2
         else filtered2)"

definition getAll :: "(string \<Rightarrow> string \<Rightarrow> int) \<Rightarrow> view \<Rightarrow> world \<Rightarrow> (thrown + entry list) \<times> world" where
  \<comment> \<open>without a filter the array that is sorted in place is the cached one\<close>
  "getAll lc vw w =
     (case getHistory w of
        (Inl error, w1) \<Rightarrow> throw_wrapped STORAGE_ERROR 8001 error w1
      | (Inr history, w1) \<Rightarrow>
          (let filteredAndSorted = filterAndSort lc vw history
           in (Inr filteredAndSorted,
               if filterType vw = ''all'' \<and> searchQuery vw = []
               then mutate_cached filteredAndSorted w1 else w1)))"

definition search :: "(string \<Rightarrow> string \<Rightarrow> int) \<Rightarrow> string \<Rightarrow> view \<Rightarrow> world
    \<Rightarrow> (thrown + entry list) \<times> view \<times> world" where
  "search lc query vw w =
     (let vw1 = vw\<lparr>searchQuery := toLowerCase query\<rparr>
      in case getAll lc vw1 w of
           (Inl error, w1) \<Rightarrow>
             (case throw_wrapped RUNTIME_ERROR 8401 error w1 of (r, w2) \<Rightarrow> (r, vw1, w2))
         | (Inr history, w1) \<Rightarrow>
             (Inr (filter (\<lambda>item.
                      includes_str (toLowerCase (content item)) (searchQuery vw1) \<or>
                      (case item_type item of
                         None \<Rightarrow> False
                       | Some t \<Rightarrow> t \<noteq> [] \<and> includes_str (toLowerCase t) (searchQuery vw1)))
                    history),
              vw1, w1))"

text \<open>
  \<^verbatim>\<open>JSON.stringify\<close> and \<^verbatim>\<open>JSON.parse\<close> belong to the platform as well: \<open>stringify\<close>
  turns a value into a text and \<open>parse\<close> a text into a value, or into \<open>None\<close> where
  \<^verbatim>\<open>JSON.parse\<close> throws a syntax error. \<open>exportTime\<close> is the clock reading
  \<^verbatim>\<open>new Date().toISOString()\<close>.
\<close>

definition exportData :: "string \<Rightarrow> entry list \<Rightarrow> jsval" where
  "exportData exportTime history =
     Obj [(''exportTime'', Str exportTime),
          (''totalItems'', Num (int (length history))),
          (''items'', Arr history)]"

definition exportAsJson :: "(jsval \<Rightarrow> 'text) \<Rightarrow> string \<Rightarrow> entry list \<Rightarrow> 'text" where
  "exportAsJson stringify exportTime history = stringify (exportData exportTime history)"

definition export_history :: "(string \<Rightarrow> string \<Rightarrow> int) \<Rightarrow> (jsval \<Rightarrow> 'text) \<Rightarrow> string \<Rightarrow> view \<Rightarrow> world
    \<Rightarrow> (thrown + 'text) \<times> world" where
  \<comment> \<open>\<^verbatim>\<open>HistoryManager.export('json')\<close>; the csv and txt branches are not modelled\<close>
  "export_history lc stringify exportTime vw w =
     (case getAll lc vw w of
        (Inl error, w1) \<Rightarrow> throw_wrapped RUNTIME_ERROR 8502 error w1
      | (Inr history, w1) \<Rightarrow> (Inr (exportAsJson stringify exportTime history), w1))"

definition get_prop :: "jsval \<Rightarrow> string \<Rightarrow> jsval" where
  \<comment> \<open>reading a property of a value that is neither null nor undefined; the names read in
      these sources are not properties of strings, numbers, booleans or arrays\<close>
  "get_prop v name =
     (case v of
        Obj kvs \<Rightarrow> (case map_of kvs name of None \<Rightarrow> Undefined | Some x \<Rightarrow> x)
      | Item e \<Rightarrow>
          (if name = ''content'' then Str (content e)
           else if name = ''timestamp'' then Num (timestamp e)
           else if name = ''id'' then Str (item_id e)
           else if name = ''type'' then (case item_type e of None \<Rightarrow> Undefined | Some t \<Rightarrow> Str t)
           else Undefined)
      | _ \<Rightarrow> Undefined)"

definition importFromJson :: "('text \<Rightarrow> jsval option) \<Rightarrow> 'text \<Rightarrow> thrown + entry list" where
  "importFromJson parse data =
     (case parse data of
        None \<Rightarrow> Inl (Native ''SyntaxError'')
      | Some parsed \<Rightarrow>
          if parsed = Null \<or> parsed = Undefined then Inl (Native ''TypeError'')
          else Inr (if isArray (get_prop parsed ''items'') then elements (get_prop parsed ''items'') else []))"

definition import_history :: "('text \<Rightarrow> jsval option) \<Rightarrow> 'text \<Rightarrow> world \<Rightarrow> (thrown + entry list) \<times> world" where
  \<comment> \<open>\<^verbatim>\<open>HistoryManager.import(data, 'json')\<close>; the csv and txt branches are not modelled\<close>
  "import_history parse data w =
     (case importFromJson parse data of
        Inl error \<Rightarrow> throw_wrapped RUNTIME_ERROR 8602 error w
      | Inr items \<Rightarrow>
          (case getHistory w of
             (Inl error, w1) \<Rightarrow> throw_wrapped RUNTIME_ERROR 8602 error w1
           | (Inr history, w1) \<Rightarrow>
               (let history1 = cap_length 100 (items @ history)
                in case set_value ''qrHistory'' (Arr history1) (mutate_cached history1 w1) of
                     (Inl error, w2) \<Rightarrow> throw_wrapped RUNTIME_ERROR 8602 error w2
                   | (Inr _, w2) \<Rightarrow>
                       (Inr items,
                        w2\<lparr>trace := trace w2 @
                          [Emit ''historyImported'' (Obj [(''count'', Num (int (length items)))])]\<rparr>))))"

section \<open>ConfigManager\<close>

text \<open>
  Modelled from the spec: \<^verbatim>\<open>QR_CORRECT_LEVELS\<close> and \<^verbatim>\<open>DEFAULT_SETTINGS\<close> come from
  core/constants.js, which is not among the sources. The levels are the four of the spec
  (section 3); the defaults are the ones options.js falls back to.
\<close>

definition QR_CORRECT_LEVELS :: "jsval list" where
  \<comment> \<open>\<^verbatim>\<open>Object.values(QR_CORRECT_LEVELS)\<close>\<close>
  "QR_CORRECT_LEVELS = [Str ''L'', Str ''M'', Str ''Q'', Str ''H'']"

definition DEFAULT_SETTINGS :: "(string \<times> jsval) list" where
  "DEFAULT_SETTINGS =
     [(''size'', Num 200), (''colorDark'', Str ''#000000''),
      (''colorLight'', Str ''#ffffff''), (''correctLevel'', Str ''H'')]"

definition hex_cls :: cls where
  \<comment> \<open>\<^verbatim>\<open>[A-Fa-f0-9]\<close>; the class is closed under change of case, so the flag \<^verbatim>\<open>i\<close> adds nothing\<close>
  "hex_cls = Either (Range (CHR ''A'') (CHR ''F''))
               (Either (Range (CHR ''a'') (CHR ''f'')) (Range (CHR ''0'') (CHR ''9'')))"

definition colorRegex :: rx where
  \<comment> \<open>\<^verbatim>\<open>/^#([A-Fa-f0-9]{6}|[A-Fa-f0-9]{3})$/i\<close>\<close>
  "colorRegex = Seq (Atom (Chr (CHR ''#''))) (Alt (exactly 6 (Atom hex_cls)) (exactly 3 (Atom hex_cls)))"

definition isValidColor :: "jsval \<Rightarrow> bool" where
  "isValidColor color = (case color of Str s \<Rightarrow> test colorRegex s | _ \<Rightarrow> False)"

definition validation_errors :: "jsval \<Rightarrow> string list" where
  \<comment> \<open>the list \<^verbatim>\<open>errors\<close> that \<^verbatim>\<open>validateSettings\<close> collects\<close>
  "validation_errors settings =
     (if (case get_prop settings ''size'' of Num n \<Rightarrow> n < 100 \<or> n > 1000 | _ \<Rightarrow> True)
      then [''Size must be between 100 and 1000''] else []) @
     (if \<not> isValidColor (get_prop settings ''colorDark'') then [''Invalid colorDark value''] else []) @
     (if \<not> isValidColor (get_prop settings ''colorLight'') then [''Invalid colorLight value''] else []) @
     (if get_prop settings ''correctLevel'' \<notin> set QR_CORRECT_LEVELS
      then [''Invalid correctLevel value''] else [])"

definition validateSettings :: "jsval \<Rightarrow> thrown option" where
  \<comment> \<open>\<open>None\<close>: the function returns; \<open>Some e\<close>: it throws \<open>e\<close>\<close>
  "validateSettings settings =
     (if falsy settings then Some (AppError VALIDATION_ERROR 4101 None)
      else if length (validation_errors settings) > 0 then Some (AppError VALIDATION_ERROR 4102 None)
      else None)"

fun update_prop :: "string \<Rightarrow> jsval \<Rightarrow> (string \<times> jsval) list \<Rightarrow> (string \<times> jsval) list" where
  "update_prop k v [] = [(k, v)]"
| "update_prop k v ((k1, v1) # kvs) =
     (if k = k1 then (k, v) # kvs else (k1, v1) # update_prop k v kvs)"

definition own_props :: "jsval \<Rightarrow> (string \<times> jsval) list" where
  \<comment> \<open>what \<^verbatim>\<open>{...v}\<close> copies. \<^verbatim>\<open>null\<close> spreads to nothing; the values spread in the functions
      modelled here are \<^verbatim>\<open>null\<close> or objects\<close>
  "own_props v = (case v of Obj kvs \<Rightarrow> kvs | _ \<Rightarrow> [])"

definition spread :: "jsval \<Rightarrow> jsval \<Rightarrow> jsval" where
  \<comment> \<open>\<^verbatim>\<open>{...a, ...b}\<close>, for property names that are not array indices (those would be
      enumerated first)\<close>
  "spread a b = Obj (fold (\<lambda>(k, v). update_prop k v) (own_props b) (own_props a))"

record config =
  currentSettings :: jsval

definition saveSettings :: "jsval \<Rightarrow> config \<Rightarrow> world \<Rightarrow> (thrown + jsval) \<times> config \<times> world" where
  \<comment> \<open>\<^verbatim>\<open>ConfigManager.saveSettings\<close>; \<^verbatim>\<open>applySettings\<close> only sets style properties of the page\<close>
  "saveSettings newSettings cfg w =
     (case validateSettings newSettings of
        Some error \<Rightarrow>
          (case throw_wrapped STORAGE_ERROR 4002 error w of (r, w1) \<Rightarrow> (r, cfg, w1))
      | None \<Rightarrow>
          (let mergedSettings = spread (currentSettings cfg) newSettings
           in case saveSettings_sm mergedSettings w of
                (Inl error, w1) \<Rightarrow>
                  (case throw_wrapped STORAGE_ERROR 4002 error w1 of (r, w2) \<Rightarrow> (r, cfg, w2))
              | (Inr _, w1) \<Rightarrow>
                  (Inr mergedSettings, cfg\<lparr>currentSettings := mergedSettings\<rparr>,
                   w1\<lparr>trace := trace w1 @ [Emit ''settingsSaved'' mergedSettings]\<rparr>)))"

definition setSetting :: "string \<Rightarrow> jsval \<Rightarrow> config \<Rightarrow> world \<Rightarrow> (thrown + jsval) \<times> config \<times> world" where
  "setSetting key v cfg w = saveSettings (Obj [(key, v)]) cfg w"

definition mergeWithDefaults :: "jsval \<Rightarrow> jsval" where
  "mergeWithDefaults settings = spread (Obj DEFAULT_SETTINGS) settings"

definition loadSettings :: "config \<Rightarrow> world \<Rightarrow> (thrown + jsval) \<times> config \<times> world" where
  "loadSettings cfg w =
     (case getSettings w of
        (Inl error, w1) \<Rightarrow>
          (case throw_wrapped STORAGE_ERROR 4001 error w1 of (r, w2) \<Rightarrow> (r, cfg, w2))
      | (Inr settings, w1) \<Rightarrow>
          (let cfg1 = cfg\<lparr>currentSettings := mergeWithDefaults settings\<rparr>
           in case validateSettings (currentSettings cfg1) of
                Some error \<Rightarrow>
                  (case throw_wrapped STORAGE_ERROR 4001 error w1 of (r, w2) \<Rightarrow> (r, cfg1, w2))
              | None \<Rightarrow>
                  (Inr (currentSettings cfg1), cfg1,
                   w1\<lparr>trace := trace w1 @ [Emit ''settingsLoaded'' (currentSettings cfg1)]\<rparr>)))"

section \<open>QRRecognizer\<close>

text \<open>
  The overlay element is modelled by the rectangle its style holds. \<open>listeners\<close> counts
  the triples of mouse handlers registered on the document: each switch into selection
  mode registers three new bound functions, and \<^verbatim>\<open>removeEventListener\<close> is always given
  a freshly bound function, which is none of the registered ones, so it removes nothing.
  \<open>captures\<close> lists the rectangles for which \<open>handleMouseUp\<close> has started
  \<^verbatim>\<open>recognizeFromRect\<close>, oldest first.
\<close>

record rect =
  r_left :: int
  r_top :: int
  r_width :: int
  r_height :: int

datatype cursor = Unset | Crosshair | Default

record recognition =
  success :: bool
  data :: "string option"
  location :: "(int \<times> int) option"
  duration :: int

record recognizer =
  isSelectionMode :: bool
  selectionBox :: "rect option"
  startX :: int
  startY :: int
  currentX :: int
  currentY :: int
  html2canvasLoaded :: bool
  recognitionHistory :: "(recognition \<times> int \<times> string) list"
  cursor :: cursor
  listeners :: nat
  captures :: "rect list"

definition new_recognizer :: recognizer where
  \<comment> \<open>the fields as the constructor sets them, on a page where \<^verbatim>\<open>html2canvas\<close> is not
      defined yet (where it is, \<^verbatim>\<open>init\<close> sets \<open>html2canvasLoaded\<close> at once)\<close>
  "new_recognizer =
     \<lparr>isSelectionMode = False, selectionBox = None, startX = 0, startY = 0,
      currentX = 0, currentY = 0, html2canvasLoaded = False, recognitionHistory = [],
      cursor = Unset, listeners = 0, captures = []\<rparr>"

definition showNotification :: "notice_text \<Rightarrow> notice_kind \<Rightarrow> world \<Rightarrow> world" where
  "showNotification m k w = w\<lparr>trace := trace w @ [Notification m k]\<rparr>"

definition removeSelectionBox :: "recognizer \<Rightarrow> recognizer" where
  "removeSelectionBox r = (if selectionBox r \<noteq> None then r\<lparr>selectionBox := None\<rparr> else r)"

definition createSelectionBox :: "recognizer \<Rightarrow> recognizer" where
  \<comment> \<open>an old overlay is removed; the new element has no position or size yet\<close>
  "createSelectionBox r =
     r\<lparr>selectionBox := Some \<lparr>r_left = 0, r_top = 0, r_width = 0, r_height = 0\<rparr>\<rparr>"

definition updateSelectionBox :: "int \<Rightarrow> int \<Rightarrow> int \<Rightarrow> int \<Rightarrow> recognizer \<Rightarrow> recognizer" where
  "updateSelectionBox l t wd h r =
     (if selectionBox r = None then r
      else r\<lparr>selectionBox := Some \<lparr>r_left = l, r_top = t, r_width = wd, r_height = h\<rparr>\<rparr>)"

definition toggleSelectionMode :: "recognizer \<times> world \<Rightarrow> recognizer \<times> world" where
  "toggleSelectionMode = (\<lambda>(r, w).
     (let r1 = r\<lparr>isSelectionMode := \<not> isSelectionMode r\<rparr>
      in if isSelectionMode r1
         then (r1\<lparr>cursor := Crosshair, listeners := listeners r1 + 1\<rparr>,
               showNotification SelectionOn Info w)
         else (removeSelectionBox (r1\<lparr>cursor := Default\<rparr>),
               showNotification SelectionOff Info w)))"

definition handleMouseDown :: "int \<Rightarrow> int \<Rightarrow> recognizer \<Rightarrow> recognizer" where
  "handleMouseDown x y r =
     (if \<not> isSelectionMode r then r
      else (let r1 = r\<lparr>startX := x, startY := y\<rparr>
            in updateSelectionBox (startX r1) (startY r1) (startX r1) (startY r1)
                 (createSelectionBox r1)))"

definition handleMouseMove :: "int \<Rightarrow> int \<Rightarrow> recognizer \<Rightarrow> recognizer" where
  "handleMouseMove x y r =
     (if \<not> isSelectionMode r \<or> selectionBox r = None then r
      else (let r1 = r\<lparr>currentX := x, currentY := y\<rparr>
            in updateSelectionBox (min (startX r1) (currentX r1)) (min (startY r1) (currentY r1))
                 \<bar>currentX r1 - startX r1\<bar> \<bar>currentY r1 - startY r1\<bar> r1))"

definition handleMouseUp :: "recognizer \<Rightarrow> recognizer" where
  \<comment> \<open>\<^verbatim>\<open>recognizeFromRect(rect)\<close> is started and not awaited\<close>
  "handleMouseUp r =
     (case selectionBox r of
        None \<Rightarrow> r
      | Some box \<Rightarrow>
          if \<not> isSelectionMode r then r
          else (removeSelectionBox (r\<lparr>captures := captures r @ [box]\<rparr>))
                 \<lparr>isSelectionMode := False, cursor := Default\<rparr>)"

definition dispatch :: "(recognizer \<Rightarrow> recognizer) \<Rightarrow> recognizer \<Rightarrow> recognizer" where
  \<comment> \<open>the document calls every registered handler of the event, one after the other\<close>
  "dispatch handler r = (handler ^^ listeners r) r"

datatype ui_event = Toggle | MouseDown int int | MouseMove int int | MouseUp

fun step :: "ui_event \<Rightarrow> recognizer \<times> world \<Rightarrow> recognizer \<times> world" where
  "step Toggle (r, w) = toggleSelectionMode (r, w)"
| "step (MouseDown x y) (r, w) = (dispatch (handleMouseDown x y) r, w)"
| "step (MouseMove x y) (r, w) = (dispatch (handleMouseMove x y) r, w)"
| "step MouseUp (r, w) = (dispatch handleMouseUp r, w)"

definition run :: "ui_event list \<Rightarrow> recognizer \<times> world \<Rightarrow> recognizer \<times> world" where
  "run events s = fold step events s"

text \<open>
  One call of \<^verbatim>\<open>recognizeFromRect\<close> meets this environment: whether the two libraries
  are defined, whether rasterising and cropping throw, what \<^verbatim>\<open>jsQR\<close> returns, the
  readings of \<^verbatim>\<open>performance.now()\<close> (at the start, inside \<^verbatim>\<open>logPerformance\<close> and for
  the result), and the clock, id and page address used for the entries.
\<close>

record qr_code =
  code_data :: string
  topLeftCorner :: "(int \<times> int) option"

record attempt =
  html2canvas_defined :: bool
  jsQR_defined :: bool
  capture_throws :: "thrown option"
  found :: "qr_code option"
  startTime :: int
  logTime :: int
  endTime :: int
  date_now :: int
  fresh_id :: string
  pageUrl :: string

definition loadHtml2Canvas :: "attempt \<Rightarrow> recognizer \<Rightarrow> recognizer" where
  \<comment> \<open>when the library is not defined a script element is added; it loads later\<close>
  "loadHtml2Canvas env r =
     (if html2canvasLoaded r then r
      else if \<not> html2canvas_defined env then r
      else r\<lparr>html2canvasLoaded := True\<rparr>)"

definition maxHistorySize_r :: nat where
  \<comment> \<open>\<^verbatim>\<open>QRRecognizer.maxHistorySize\<close>\<close>
  "maxHistorySize_r = 50"

definition addToRecognitionHistory :: "recognition \<Rightarrow> attempt \<Rightarrow> recognizer \<Rightarrow> recognizer" where
  "addToRecognitionHistory result env r =
     (let h = (result, date_now env, pageUrl env) # recognitionHistory r
      in r\<lparr>recognitionHistory := (if length h > maxHistorySize_r then butlast h else h)\<rparr>)"

definition preview :: "string \<Rightarrow> string" where
  \<comment> \<open>\<^verbatim>\<open>data.substring(0, 50)\<close> followed by \<^verbatim>\<open>'...'\<close> when \<^verbatim>\<open>data.length > 50\<close>\<close>
  "preview d = take 50 d @ (if length d > 50 then ''...'' else [])"

definition recognition_failed :: "thrown \<Rightarrow> recognizer \<Rightarrow> world \<Rightarrow> (thrown + recognition) \<times> recognizer \<times> world" where
  \<comment> \<open>the \<^verbatim>\<open>catch\<close> block of \<^verbatim>\<open>recognizeFromRect\<close>\<close>
  "recognition_failed error r w =
     (case throw_wrapped RUNTIME_ERROR 7003 error
             (showNotification (RecognitionFailed error) Error w) of
        (res, w1) \<Rightarrow> (res, r, w1))"

definition recognizeFromRect :: "rect \<Rightarrow> attempt \<Rightarrow> recognizer \<times> world
    \<Rightarrow> (thrown + recognition) \<times> recognizer \<times> world" where
  "recognizeFromRect box env = (\<lambda>(r, w).
     (let r1 = (if \<not> html2canvasLoaded r then loadHtml2Canvas env r else r)
      in if \<not> html2canvas_defined env
         then recognition_failed (AppError RUNTIME_ERROR 7001 None) r1 w
         else if \<not> jsQR_defined env
         then recognition_failed (AppError RUNTIME_ERROR 7002 None) r1 w
         else
           (case capture_throws env of
              Some error \<Rightarrow> recognition_failed error r1 w
            | None \<Rightarrow>
                (let w0 = logPerformance QR_RECOGNITION_TIME (startTime env) (logTime env) w
                 in case found env of
                   Some code \<Rightarrow>
                     (let result = \<lparr>success = True, data = Some (code_data code),
                                     location = Some (case topLeftCorner code of
                                                        None \<Rightarrow> (0, 0) | Some xy \<Rightarrow> xy),
                                     duration = endTime env - startTime env\<rparr>;
                          r2 = addToRecognitionHistory result env r1
                      in case saveToHistory (code_data code) (date_now env) (fresh_id env) w0 of
                           (Inl error, w1) \<Rightarrow> recognition_failed error r2 w1
                         | (Inr _, w1) \<Rightarrow>
                             (Inr result, r2,
                              showNotification (Recognized (preview (code_data code))) Success w1))
                 | None \<Rightarrow>
                     (Inr \<lparr>success = False, data = None, location = None,
                           duration = endTime env - startTime env\<rparr>,
                      r1, showNotification NotRecognized Warning w0)))))"

section \<open>Notions used to state the properties\<close>

definition empty_world :: world where
  \<comment> \<open>a fresh profile: nothing stored, nothing cached, a platform that never fails\<close>
  "empty_world = \<lparr>local_items = Map.empty, faults = [], cache = Map.empty, errorHistory = [], trace = []\<rparr>"

definition leading_failures :: "world \<Rightarrow> nat" where
  \<comment> \<open>how many of the next storage calls fail in a row\<close>
  "leading_failures w = length (takeWhile (\<lambda>b. b) (faults w))"

definition visible :: "world \<Rightarrow> string \<Rightarrow> jsval" where
  \<comment> \<open>the value a read of \<open>key\<close> sees: the cached one if there is one, else the stored one\<close>
  "visible w key =
     (if cache_get w key \<noteq> Undefined then cache_get w key
      else case local_items w key of None \<Rightarrow> Undefined | Some v \<Rightarrow> v)"

definition read_ok :: "world \<Rightarrow> string \<Rightarrow> bool" where
  \<comment> \<open>a read of \<open>key\<close> does not end with \<^verbatim>\<open>chrome.runtime.lastError\<close>\<close>
  "read_ok w key = (cache_get w key \<noteq> Undefined \<or> \<not> fst (next_fault w))"

definition healthy :: "world \<Rightarrow> bool" where
  \<comment> \<open>none of the storage calls to come fails\<close>
  "healthy w = (\<forall>b \<in> set (faults w). \<not> b)"

definition stored_history :: "world \<Rightarrow> entry list" where
  \<comment> \<open>the history list in \<^verbatim>\<open>chrome.storage.local\<close>\<close>
  "stored_history w = elements (case local_items w QR_HISTORY of None \<Rightarrow> Undefined | Some v \<Rightarrow> v)"

definition coherent :: "world \<Rightarrow> bool" where
  \<comment> \<open>a cached history is the stored one\<close>
  "coherent w = (cache_get w QR_HISTORY = Undefined
                 \<or> elements (cache_get w QR_HISTORY) = stored_history w)"

text \<open>
  A sequence of calls of \<^verbatim>\<open>add(content)\<close>, each with the clock reading and the id it
  gets; between two calls the cache entry of the history may expire.
\<close>

datatype history_call = Add string int string | CacheExpiry

fun perform :: "(string \<Rightarrow> bool) \<Rightarrow> history_call \<Rightarrow> world \<Rightarrow> world" where
  "perform url (Add c now new_id) w = snd (add url c now new_id w)"
| "perform url CacheExpiry w = expire QR_HISTORY w"

definition perform_all :: "(string \<Rightarrow> bool) \<Rightarrow> history_call list \<Rightarrow> world \<Rightarrow> world" where
  "perform_all url calls w = fold (perform url) calls w"

fun added_by :: "(string \<Rightarrow> bool) \<Rightarrow> history_call \<Rightarrow> entry list" where
  "added_by url (Add c now new_id) =
     [\<lparr>content = c, timestamp = now, item_id = new_id, item_type = Some (detectContentType url c)\<rparr>]"
| "added_by url CacheExpiry = []"

definition added :: "(string \<Rightarrow> bool) \<Rightarrow> history_call list \<Rightarrow> entry list" where
  \<comment> \<open>the entries the calls add, oldest first\<close>
  "added url calls = concat (map (added_by url) calls)"

definition valid_call :: "history_call \<Rightarrow> bool" where
  \<comment> \<open>the content of an entry is a non-empty string (spec, section 3)\<close>
  "valid_call call = (case call of Add c _ _ \<Rightarrow> c \<noteq> [] | CacheExpiry \<Rightarrow> True)"

text \<open>
  The language of a regular expression, to say in words of sets what \<open>test\<close> computes.
\<close>

definition conc :: "string set \<Rightarrow> string set \<Rightarrow> string set" where
  "conc A B = {xs @ ys | xs ys. xs \<in> A \<and> ys \<in> B}"

inductive_set star :: "string set \<Rightarrow> string set" for A :: "string set" where
  star_empty: "[] \<in> star A"
| star_more: "xs \<in> A \<Longrightarrow> ys \<in> star A \<Longrightarrow> xs @ ys \<in> star A"

fun lang :: "rx \<Rightarrow> string set" where
  "lang Zero = {}"
| "lang One = {[]}"
| "lang (Atom k) = {[c] | c. in_cls k c}"
| "lang (Seq r s) = conc (lang r) (lang s)"
| "lang (Alt r s) = lang r \<union> lang s"
| "lang (Star r) = star (lang r)"

definition left_quotient :: "char \<Rightarrow> string set \<Rightarrow> string set" where
  "left_quotient c A = {xs. c # xs \<in> A}"

definition all_in :: "cls \<Rightarrow> string set" where
  "all_in k = {s. \<forall>c \<in> set s. in_cls k c}"

text \<open>
  The two patterns in the words of the spec: a local part, \<open>@\<close>, a domain, a dot and a
  rest, all non-empty and free of whitespace and \<open>@\<close>; and at least ten characters, each
  a digit, whitespace or one of \<open>- + ( )\<close>.
\<close>

definition plain :: "char \<Rightarrow> bool" where
  "plain c = (\<not> in_cls Space c \<and> c \<noteq> CHR ''@'')"

definition local_at_domain :: "string \<Rightarrow> bool" where
  "local_at_domain s =
     (\<exists>a b d. s = a @ ''@'' @ b @ ''.'' @ d \<and> a \<noteq> [] \<and> b \<noteq> [] \<and> d \<noteq> []
        \<and> (\<forall>c \<in> set (a @ b @ d). plain c))"

definition digit_or_separator :: "char \<Rightarrow> bool" where
  "digit_or_separator c =
     ((48 \<le> (of_char c :: nat) \<and> (of_char c :: nat) \<le> 57) \<or> in_cls Space c \<or> c \<in> set ''-+()'')"

definition phone_like :: "string \<Rightarrow> bool" where
  "phone_like s = (length s \<ge> 10 \<and> (\<forall>c \<in> set s. digit_or_separator c))"

text \<open>The states of the selection controller, and what is counted along a run.\<close>

definition dragging :: "recognizer \<Rightarrow> bool" where
  "dragging r = (isSelectionMode r \<and> selectionBox r \<noteq> None)"

definition idle :: "recognizer \<Rightarrow> bool" where
  "idle r = (\<not> isSelectionMode r \<and> selectionBox r = None \<and> cursor r = Default)"

definition switched_on :: "effect list \<Rightarrow> nat" where
  "switched_on tr = length (filter (\<lambda>e. e = Notification SelectionOn Info) tr)"

definition cycles_open :: "recognizer \<Rightarrow> nat" where
  "cycles_open r = (if isSelectionMode r then 1 else 0)"





definition sample_url :: "string \<Rightarrow> bool" where
  \<comment> \<open>a stand-in for the URL constructor at the examples\<close>
  "sample_url s = startsWith s ''https://''"


definition sample_attempt :: attempt where
  "sample_attempt =
     \<lparr>html2canvas_defined = True, jsQR_defined = True, capture_throws = None,
      found = Some \<lparr>code_data = replicate 60 (CHR ''a''), topLeftCorner = Some (3, 4)\<rparr>,
      startTime = 1000, logTime = 1240, endTime = 1250, date_now = 77, fresh_id = ''77-abc'',
      pageUrl = ''https://example.com''\<rparr>"

text \<open>The concrete situations at which the code is evaluated below.\<close>

definition two_entries :: "entry list" where
  "two_entries =
     [\<lparr>content = ''https://example.com'', timestamp = 2, item_id = ''2-b'', item_type = Some ''url''\<rparr>,
      \<lparr>content = ''hello world'', timestamp = 1, item_id = ''1-a'', item_type = Some ''text''\<rparr>]"

definition history_world :: world where
  "history_world = empty_world\<lparr>local_items := [QR_HISTORY \<mapsto> Arr two_entries]\<rparr>"

definition settings_world :: world where
  "settings_world = empty_world\<lparr>local_items := [QR_SETTINGS \<mapsto> Obj DEFAULT_SETTINGS]\<rparr>"

definition default_config :: config where
  "default_config = \<lparr>currentSettings = Obj DEFAULT_SETTINGS\<rparr>"

definition small_size :: jsval where
  \<comment> \<open>the defaults with \<^verbatim>\<open>size = 50\<close>\<close>
  "small_size =
     Obj [(''size'', Num 50), (''colorDark'', Str ''#000000''),
          (''colorLight'', Str ''#ffffff''), (''correctLevel'', Str ''H'')]"

definition dragging_state :: "recognizer \<times> world" where
  "dragging_state = run [Toggle, MouseDown 10 20, MouseMove 110 140] (new_recognizer, empty_world)"

section \<open>Properties\<close>

subsection \<open>Traces, faults and the error handler\<close>

lemma attempts_append [simp]: "attempts (xs @ ys) = attempts xs + attempts ys"
  by (simp add: attempts_def)

lemma delays_append [simp]: "delays (xs @ ys) = delays xs @ delays ys"
  by (simp add: delays_def)

lemma attempts_simps [simp]:
  "attempts [] = 0"
  "attempts (SetAttempt k v b # tr) = Suc (attempts tr)"
  "attempts (RetryTimer d # tr) = attempts tr"
  by (simp_all add: attempts_def)

lemma delays_simps [simp]:
  "delays [] = []"
  "delays (SetAttempt k v b # tr) = delays tr"
  "delays (RetryTimer d # tr) = d # delays tr"
  by (simp_all add: delays_def)

lemma next_fault_fields:
  "next_fault w = (b, w1) \<Longrightarrow>
     local_items w1 = local_items w \<and> cache w1 = cache w \<and> errorHistory w1 = errorHistory w
     \<and> trace w1 = trace w"
  by (auto simp: next_fault_def split: list.splits)

lemma handleError_trace [simp]: "trace (snd (handleError e w)) = trace w"
  by (simp add: handleError_def tryRecovery_def tryStorageRecovery_def addToHistory_def next_fault_def
      Let_def split: thrown.splits error_type.splits list.splits bool.splits)

lemma handleError_AppError [simp]: "fst (handleError (AppError t c d) w) = AppError t c d"
  by (simp add: handleError_def Let_def)

subsection \<open>Bounded retry of storage writes\<close>

lemma setWithRetry_general:
  "retryCount \<le> maxRetries \<Longrightarrow>
   (case setWithRetry key v retryCount w of (r, w1) \<Rightarrow>
      (let n = leading_failures w; m = min (n + 1) (maxRetries + 1 - retryCount) in
       attempts (trace w1) = attempts (trace w) + m \<and>
       delays (trace w1) = delays (trace w) @ map (\<lambda>i. retryDelay * i) [retryCount + 1 ..< retryCount + m] \<and>
       r = (if n < maxRetries + 1 - retryCount then Inr () else Inl LastError) \<and>
       local_items w1 = (if n < maxRetries + 1 - retryCount then (local_items w)(key \<mapsto> v) else local_items w) \<and>
       faults w1 = drop m (faults w) \<and> cache w1 = cache w \<and> errorHistory w1 = errorHistory w))"
proof (induction key v retryCount w rule: setWithRetry.induct)
  case (1 key v retryCount w)
  show ?case
  proof (cases "faults w")
    case Nil
    with "1.prems" show ?thesis
      by (subst setWithRetry.simps) (simp add: chrome_set_def next_fault_def leading_failures_def maxRetries_def)
  next
    case (Cons b bs)
    show ?thesis
    proof (cases b)
      case False
      with Cons "1.prems" show ?thesis
        by (subst setWithRetry.simps) (simp add: chrome_set_def next_fault_def leading_failures_def maxRetries_def)
    next
      case True
      show ?thesis
      proof (cases "retryCount < maxRetries")
        case lt: True
        let ?w1 = "w\<lparr>faults := bs, trace := trace w @ [SetAttempt key v True]\<rparr>"
        let ?w2 = "?w1\<lparr>trace := trace ?w1 @ [RetryTimer (retryDelay * (retryCount + 1))]\<rparr>"
        have cs: "chrome_set key v w = (True, ?w1)"
          using Cons True by (simp add: chrome_set_def next_fault_def)
        have unf: "setWithRetry key v retryCount w = setWithRetry key v (retryCount + 1) ?w2"
          using lt cs by (subst setWithRetry.simps) simp
        have lf: "leading_failures w = Suc (leading_failures ?w2)"
          using Cons True by (simp add: leading_failures_def)
        have IH: "(case setWithRetry key v (retryCount + 1) ?w2 of (r, w1) \<Rightarrow>
      (let n = leading_failures ?w2; m = min (n + 1) (maxRetries + 1 - (retryCount + 1)) in
       attempts (trace w1) = attempts (trace ?w2) + m \<and>
       delays (trace w1) = delays (trace ?w2) @ map (\<lambda>i. retryDelay * i) [retryCount + 1 + 1 ..< retryCount + 1 + m] \<and>
       r = (if n < maxRetries + 1 - (retryCount + 1) then Inr () else Inl LastError) \<and>
       local_items w1 = (if n < maxRetries + 1 - (retryCount + 1) then (local_items ?w2)(key \<mapsto> v) else local_items ?w2) \<and>
       faults w1 = drop m (faults ?w2) \<and> cache w1 = cache ?w2 \<and> errorHistory w1 = errorHistory ?w2))"
          using "1.IH"[OF cs[symmetric] _ lt] lt by simp
        obtain r w1 where res: "setWithRetry key v (retryCount + 1) ?w2 = (r, w1)" by force
        have m: "min (Suc (leading_failures ?w2) + 1) (maxRetries + 1 - retryCount)
                 = Suc (min (leading_failures ?w2 + 1) (maxRetries + 1 - (retryCount + 1)))"
          using lt by simp
        have up: "[retryCount + 1 ..< retryCount + Suc k] = (retryCount + 1) # [retryCount + 1 + 1 ..< retryCount + 1 + k]" if "k > 0" for k
          using that by (simp add: upt_conv_Cons)
        have kpos: "min (leading_failures ?w2 + 1) (maxRetries + 1 - (retryCount + 1)) > 0"
          using lt by simp
        show ?thesis
          using IH lt unfolding unf res lf
          apply (simp only: m Let_def prod.case)
          apply (simp only: up[OF kpos])
          using Cons by auto
      next
        case ge: False
        with Cons True "1.prems" show ?thesis
          by (subst setWithRetry.simps) (simp add: chrome_set_def next_fault_def leading_failures_def maxRetries_def)
      qed
    qed
  qed
qed

text \<open>
  C8, as stated: a write is attempted at most three times. It fails on the code: after
  three failed attempts \<open>setWithRetry\<close> makes a fourth one, and the write succeeds.
\<close>

theorem set_three_attempts_counterexample:
  "fst (setWithRetry ''qrHistory'' (Arr []) 0 (empty_world\<lparr>faults := [True, True, True]\<rparr>)) = Inr ()
   \<and> attempts (trace (snd (setWithRetry ''qrHistory'' (Arr []) 0
         (empty_world\<lparr>faults := [True, True, True]\<rparr>)))) = 4"
  by (simp add: setWithRetry.simps empty_world_def chrome_set_def next_fault_def maxRetries_def retryDelay_def)

text \<open>
  C8, amended: a write is attempted at most four times (the first attempt and up to
  \<open>maxRetries = 3\<close> retries), waiting 1000, 2000 and 3000 ms before the retries. With
  \<open>n\<close> failures in a row ahead, \<open>set\<close> makes \<open>min (n + 1) 4\<close> attempts; it returns
  true and the value is stored when \<open>n < 4\<close>, and reports a storage error (code 2002)
  only after the fourth attempt has failed.
\<close>

theorem set_value_bounded_retry:
  "(case set_value key v w of (r, w1) \<Rightarrow>
      (let n = leading_failures w; m = min (n + 1) 4 in
       attempts (trace w1) = attempts (trace w) + m \<and>
       delays (trace w1) = delays (trace w) @ map (\<lambda>i. 1000 * i) [1 ..< m] \<and>
       (if n < 4
        then r = Inr True \<and> local_items w1 = (local_items w)(key \<mapsto> v)
        else r = Inl (AppError STORAGE_ERROR 2002 (Some LastError)))))"
proof -
  obtain r0 w0 where res: "setWithRetry key v 0 w = (r0, w0)" by force
  have g: "(let n = leading_failures w; m = min (n + 1) 4 in
       attempts (trace w0) = attempts (trace w) + m \<and>
       delays (trace w0) = delays (trace w) @ map (\<lambda>i. 1000 * i) [1 ..< m] \<and>
       r0 = (if n < 4 then Inr () else Inl LastError) \<and>
       local_items w0 = (if n < 4 then (local_items w)(key \<mapsto> v) else local_items w))"
    using setWithRetry_general[where retryCount=0 and key=key and v=v and w=w] res
    by (simp add: maxRetries_def retryDelay_def Let_def)
  show ?thesis
  proof (cases "leading_failures w < 4")
    case True
    with g show ?thesis by (simp add: set_value_def res Let_def)
  next
    case False
    obtain e w2 where h: "handleError (AppError STORAGE_ERROR 2002 (Some LastError)) w0 = (e, w2)" by force
    have "e = AppError STORAGE_ERROR 2002 (Some LastError)" "trace w2 = trace w0"
      using handleError_AppError[of STORAGE_ERROR 2002 "Some LastError" w0]
            handleError_trace[of "AppError STORAGE_ERROR 2002 (Some LastError)" w0] h by simp_all
    with False g h show ?thesis by (simp add: set_value_def res Let_def)
  qed
qed

theorem set_value_bounded_retry_witness:
  "fst (set_value ''qrHistory'' (Arr []) (empty_world\<lparr>faults := [True, True, False]\<rparr>)) = Inr True
   \<and> delays (trace (snd (set_value ''qrHistory'' (Arr []) (empty_world\<lparr>faults := [True, True, False]\<rparr>))))
       = [1000, 2000]
   \<and> fst (set_value ''qrHistory'' (Arr []) (empty_world\<lparr>faults := [True, True, True, True]\<rparr>))
       = Inl (AppError STORAGE_ERROR 2002 (Some LastError))"
  using set_value_bounded_retry [where key = "''qrHistory''" and v = "Arr []"
          and w = "empty_world\<lparr>faults := [True, True, False]\<rparr>"]
        set_value_bounded_retry [where key = "''qrHistory''" and v = "Arr []"
          and w = "empty_world\<lparr>faults := [True, True, True, True]\<rparr>"]
  by (simp add: leading_failures_def empty_world_def Let_def split: prod.splits)

subsection \<open>Reading the history\<close>

lemma get_value_read_ok:
  assumes "read_ok w key"
  shows "fst (get_value key d w) = Inr (if visible w key = Undefined then d else visible w key)"
proof (cases "cache_get w key \<noteq> Undefined")
  case True
  then show ?thesis by (simp add: get_value_def visible_def)
next
  case False
  with assms obtain w1 where nf: "next_fault w = (False, w1)"
    by (cases "next_fault w") (auto simp: read_ok_def)
  from next_fault_fields[OF nf] have "local_items w1 = local_items w" by simp
  with False nf show ?thesis
    by (simp add: get_value_def getFromStorage_def visible_def Let_def split: option.splits)
qed

text \<open>
  C10: whenever the read itself does not fail, \<open>getHistory\<close> returns an array: the
  elements of the value under the history key if that is an array, and the empty list if
  the value is absent or anything else.
\<close>

theorem getHistory_array:
  assumes "read_ok w QR_HISTORY"
  shows "fst (getHistory w) = Inr (elements (visible w QR_HISTORY))
         \<and> (\<not> isArray (visible w QR_HISTORY) \<longrightarrow> fst (getHistory w) = Inr [])"
  using get_value_read_ok[OF assms, of "Arr []"]
  by (cases "get_value QR_HISTORY (Arr []) w")
     (auto simp: getHistory_def isArray_def elements_def split: jsval.splits)

theorem getHistory_array_witness:
  "read_ok (empty_world\<lparr>local_items := [QR_HISTORY \<mapsto> Str ''broken'']\<rparr>) QR_HISTORY
   \<and> \<not> isArray (visible (empty_world\<lparr>local_items := [QR_HISTORY \<mapsto> Str ''broken'']\<rparr>) QR_HISTORY)
   \<and> fst (getHistory (empty_world\<lparr>local_items := [QR_HISTORY \<mapsto> Str ''broken'']\<rparr>)) = Inr []"
proof -
  have r: "read_ok (empty_world\<lparr>local_items := [QR_HISTORY \<mapsto> Str ''broken'']\<rparr>) QR_HISTORY"
    by (simp add: read_ok_def empty_world_def next_fault_def cache_get_def)
  have n: "\<not> isArray (visible (empty_world\<lparr>local_items := [QR_HISTORY \<mapsto> Str ''broken'']\<rparr>) QR_HISTORY)"
    by (simp add: visible_def empty_world_def cache_get_def isArray_def)
  from getHistory_array[OF r] n r show ?thesis by blast
qed

subsection \<open>A storage that does not fail\<close>

lemma healthy_next_fault:
  assumes "healthy w"
  shows "fst (next_fault w) = False" and "healthy (snd (next_fault w))"
    and "local_items (snd (next_fault w)) = local_items w"
    and "cache (snd (next_fault w)) = cache w"
    and "trace (snd (next_fault w)) = trace w"
    and "errorHistory (snd (next_fault w)) = errorHistory w"
  using assms by (auto simp: next_fault_def healthy_def split: list.splits)

lemma setWithRetry_healthy:
  assumes "healthy w"
  shows "fst (setWithRetry key v 0 w) = Inr ()"
    and "healthy (snd (setWithRetry key v 0 w))"
    and "local_items (snd (setWithRetry key v 0 w)) = (local_items w)(key \<mapsto> v)"
    and "cache (snd (setWithRetry key v 0 w)) = cache w"
    and "trace (snd (setWithRetry key v 0 w)) = trace w @ [SetAttempt key v False]"
    and "errorHistory (snd (setWithRetry key v 0 w)) = errorHistory w"
proof -
  obtain w1 where nf: "next_fault w = (False, w1)"
    using healthy_next_fault(1)[OF assms] by (cases "next_fault w") auto
  have f: "healthy w1" "local_items w1 = local_items w" "cache w1 = cache w" "trace w1 = trace w"
    "errorHistory w1 = errorHistory w"
    using healthy_next_fault(2-6)[OF assms] nf by simp_all
  have eq: "setWithRetry key v 0 w
            = (Inr (), w1\<lparr>local_items := (local_items w1)(key \<mapsto> v),
                          trace := trace w1 @ [SetAttempt key v False]\<rparr>)"
    by (subst setWithRetry.simps) (simp add: chrome_set_def nf)
  show "fst (setWithRetry key v 0 w) = Inr ()"
    and "healthy (snd (setWithRetry key v 0 w))"
    and "local_items (snd (setWithRetry key v 0 w)) = (local_items w)(key \<mapsto> v)"
    and "cache (snd (setWithRetry key v 0 w)) = cache w"
    and "trace (snd (setWithRetry key v 0 w)) = trace w @ [SetAttempt key v False]"
    and "errorHistory (snd (setWithRetry key v 0 w)) = errorHistory w"
    using f by (simp_all add: eq healthy_def)
qed

lemma set_value_healthy:
  assumes "healthy w"
  shows "fst (set_value key v w) = Inr True"
    and "healthy (snd (set_value key v w))"
    and "local_items (snd (set_value key v w)) = (local_items w)(key \<mapsto> v)"
    and "cache (snd (set_value key v w)) = (cache w)(key \<mapsto> v)"
    and "trace (snd (set_value key v w)) = trace w @ [SetAttempt key v False]"
    and "errorHistory (snd (set_value key v w)) = errorHistory w"
  using setWithRetry_healthy[OF assms, of key v]
  by (cases "setWithRetry key v 0 w"; simp add: set_value_def healthy_def)+

lemma get_value_healthy:
  assumes "healthy w"
  shows "fst (get_value key d w) = Inr (if visible w key = Undefined then d else visible w key)"
    and "healthy (snd (get_value key d w))"
    and "local_items (snd (get_value key d w)) = local_items w"
    and "cache_get (snd (get_value key d w)) key
           = (if visible w key = Undefined then d else visible w key)"
    and "trace (snd (get_value key d w)) = trace w"
    and "errorHistory (snd (get_value key d w)) = errorHistory w"
proof -
  obtain w1 where nf: "next_fault w = (False, w1)"
    using healthy_next_fault(1)[OF assms] by (cases "next_fault w") auto
  have f: "healthy w1" "local_items w1 = local_items w" "cache w1 = cache w" "trace w1 = trace w"
    "errorHistory w1 = errorHistory w"
    using healthy_next_fault(2-6)[OF assms] nf by simp_all
  show "fst (get_value key d w) = Inr (if visible w key = Undefined then d else visible w key)"
    and "healthy (snd (get_value key d w))"
    and "local_items (snd (get_value key d w)) = local_items w"
    and "cache_get (snd (get_value key d w)) key
           = (if visible w key = Undefined then d else visible w key)"
    and "trace (snd (get_value key d w)) = trace w"
    and "errorHistory (snd (get_value key d w)) = errorHistory w"
    using f assms
    by (auto simp: get_value_def getFromStorage_def nf visible_def cache_get_def Let_def healthy_def
        split: option.splits)
qed

lemma getHistory_healthy:
  assumes "healthy w"
  shows "fst (getHistory w) = Inr (elements (visible w QR_HISTORY))"
    and "healthy (snd (getHistory w))"
    and "local_items (snd (getHistory w)) = local_items w"
    and "trace (snd (getHistory w)) = trace w"
    and "errorHistory (snd (getHistory w)) = errorHistory w"
  using get_value_healthy[OF assms, of QR_HISTORY "Arr []"]
  by (cases "get_value QR_HISTORY (Arr []) w";
      auto simp: getHistory_def isArray_def elements_def split: jsval.splits)+

lemma cap_length_take: "cap_length n xs = take n xs"
  by (simp add: cap_length_def)

lemma mutate_cached_fields [simp]:
  "local_items (mutate_cached h w) = local_items w"
  "faults (mutate_cached h w) = faults w"
  "trace (mutate_cached h w) = trace w"
  "errorHistory (mutate_cached h w) = errorHistory w"
  by (simp_all add: mutate_cached_def)

lemma healthy_mutate_cached [simp]: "healthy (mutate_cached h w) = healthy w"
  by (simp add: healthy_def)

lemma coherent_visible: "coherent w \<Longrightarrow> elements (visible w QR_HISTORY) = stored_history w"
  by (auto simp: coherent_def visible_def stored_history_def)

lemma expire_fields [simp]:
  "healthy (expire k w) = healthy w" "stored_history (expire k w) = stored_history w"
  "coherent (expire QR_HISTORY w)"
  by (simp_all add: expire_def healthy_def stored_history_def coherent_def cache_get_def)

lemma add_healthy:
  assumes "healthy w" and "c \<noteq> []"
  shows "fst (add url c now new_id w)
           = Inr \<lparr>content = c, timestamp = now, item_id = new_id,
                  item_type = Some (detectContentType url c)\<rparr>"
    and "stored_history (snd (add url c now new_id w))
           = take 100 (\<lparr>content = c, timestamp = now, item_id = new_id,
                         item_type = Some (detectContentType url c)\<rparr> # elements (visible w QR_HISTORY))"
    and "healthy (snd (add url c now new_id w))"
    and "coherent (snd (add url c now new_id w))"
proof -
  let ?item = "\<lparr>content = c, timestamp = now, item_id = new_id,
                  item_type = Some (detectContentType url c)\<rparr>"
  let ?h = "elements (visible w QR_HISTORY)"
  obtain r1 w1 where gh: "getHistory w = (r1, w1)" by force
  have g: "r1 = Inr ?h" "healthy w1" "local_items w1 = local_items w"
    using getHistory_healthy[OF assms(1)] gh by simp_all
  let ?w2 = "mutate_cached (take 100 (?item # ?h)) w1"
  have h2: "healthy ?w2" using g by simp
  obtain r3 w3 where sv: "set_value ''qrHistory'' (Arr (take 100 (?item # ?h))) ?w2 = (r3, w3)" by force
  have s: "r3 = Inr True" "healthy w3"
    "local_items w3 = (local_items ?w2)(''qrHistory'' \<mapsto> Arr (take 100 (?item # ?h)))"
    "cache w3 = (cache ?w2)(''qrHistory'' \<mapsto> Arr (take 100 (?item # ?h)))"
    using set_value_healthy[OF h2, of "''qrHistory''" "Arr (take 100 (?item # ?h))"] sv by simp_all
  have res: "add url c now new_id w
        = (Inr ?item, w3\<lparr>trace := trace w3 @ [Emit ''historyAdded'' (Item ?item)]\<rparr>)"
    using assms(2) gh g(1) sv s(1) by (simp add: add_def Let_def cap_length_take)
  show "fst (add url c now new_id w) = Inr ?item" by (simp add: res)
  show "stored_history (snd (add url c now new_id w)) = take 100 (?item # ?h)"
    using s(3) by (simp add: res stored_history_def QR_HISTORY_def elements_def)
  show "healthy (snd (add url c now new_id w))" using s(2) by (simp add: res healthy_def)
  show "coherent (snd (add url c now new_id w))"
    using s(3,4) by (simp add: res coherent_def stored_history_def QR_HISTORY_def cache_get_def)
qed

subsection \<open>The history keeps the newest hundred entries\<close>

lemma take_append_take: "take n (xs @ take n ys) = take n (xs @ ys)"
  by (simp add: min_def)

lemma perform_step:
  assumes "healthy w" "coherent w" "valid_call call"
  shows "healthy (perform url call w)" and "coherent (perform url call w)"
    and "stored_history (perform url call w) = take (if added_by url call = [] then length (stored_history w) else 100)
           (added_by url call @ stored_history w)"
  using assms add_healthy[OF assms(1)] coherent_visible[OF assms(2)]
  by (cases call; simp add: valid_call_def)+

lemma perform_all_stored:
  assumes "healthy w" "coherent w" "list_all valid_call calls" "length (stored_history w) \<le> 100"
  shows "stored_history (perform_all url calls w) = take 100 (rev (added url calls) @ stored_history w)"
  using assms
proof (induction calls arbitrary: w)
  case Nil
  then show ?case by (simp add: perform_all_def added_def)
next
  case (Cons call calls)
  let ?w1 = "perform url call w"
  have v: "valid_call call" "list_all valid_call calls" using Cons.prems(3) by simp_all
  note st = perform_step[OF Cons.prems(1,2) v(1), of url]
  have len: "length (stored_history ?w1) \<le> 100"
    using st(3) Cons.prems(4) by (simp split: if_splits)
  have "stored_history (perform_all url (call # calls) w) = stored_history (perform_all url calls ?w1)"
    by (simp add: perform_all_def)
  also have "\<dots> = take 100 (rev (added url calls) @ stored_history ?w1)"
    using Cons.IH[OF st(1,2) v(2) len] .
  also have "\<dots> = take 100 (rev (added url calls) @ rev (added_by url call) @ stored_history w)"
  proof (cases "added_by url call = []")
    case True
    with st(3) show ?thesis by simp
  next
    case False
    then obtain item where r: "added_by url call = [item]" by (cases call) simp_all
    from st(3) have "stored_history ?w1 = take 100 ([item] @ stored_history w)"
      by (simp add: r)
    then show ?thesis by (simp only: r take_append_take rev.simps append_Nil)
  qed
  finally show ?case by (simp add: added_def)
qed

text \<open>
  C2: on a storage that does not fail, after any sequence of calls \<open>add(content)\<close> with
  non-empty contents (and with the cache expiring at any point between them) the stored
  history is the list of the added entries, newest first, in front of the older ones, cut
  after 100 entries. So it never has more than 100 entries, and once more than 100 entries
  have been added it consists of exactly the 100 added last.
\<close>

theorem add_keeps_newest_hundred:
  assumes "healthy w" and "coherent w" and "length (stored_history w) \<le> 100"
    and "list_all valid_call calls"
  shows "stored_history (perform_all url calls w) = take 100 (rev (added url calls) @ stored_history w)
       \<and> length (stored_history (perform_all url calls w)) \<le> 100
       \<and> (length (added url calls) > 100 \<longrightarrow>
            stored_history (perform_all url calls w)
              = rev (drop (length (added url calls) - 100) (added url calls)))"
proof -
  have eq: "stored_history (perform_all url calls w) = take 100 (rev (added url calls) @ stored_history w)"
    using perform_all_stored[OF assms(1,2,4,3)] .
  have "take 100 (rev (added url calls) @ stored_history w)
          = rev (drop (length (added url calls) - 100) (added url calls))"
    if "length (added url calls) > 100"
    using that by (simp add: take_rev)
  with eq show ?thesis by simp
qed

lemma text_hello: "detectContentType (\<lambda>s. False) ''hello'' = ''text''"
  by code_simp

theorem add_keeps_newest_hundred_witness:
  "healthy empty_world \<and> coherent empty_world \<and> length (stored_history empty_world) \<le> 100
   \<and> list_all valid_call (map (\<lambda>i. Add ''hello'' (int i) ''id'') [0..<101])
   \<and> stored_history (perform_all (\<lambda>s. False) (map (\<lambda>i. Add ''hello'' (int i) ''id'') [0..<101]) empty_world)
       = map (\<lambda>i. \<lparr>content = ''hello'', timestamp = int i, item_id = ''id'', item_type = Some ''text''\<rparr>)
           (rev [1..<101])"
proof -
  have h: "healthy empty_world" "coherent empty_world" "length (stored_history empty_world) \<le> 100"
    by (simp_all add: healthy_def coherent_def empty_world_def cache_get_def stored_history_def elements_def)
  have v: "list_all valid_call (map (\<lambda>i. Add ''hello'' (int i) ''id'') [0..<101])"
    by (simp add: list_all_iff valid_call_def)
  have a: "added (\<lambda>s. False) (map (\<lambda>i. Add ''hello'' (int i) ''id'') [0..<101])
       = map (\<lambda>i. \<lparr>content = ''hello'', timestamp = int i, item_id = ''id'', item_type = Some ''text''\<rparr>) [0..<101]"
    by (simp add: added_def text_hello map_concat comp_def concat_map_singleton del: upt_Suc)
  have d: "drop 1 [0..<101] = [1..<101]" by (simp add: drop_upt del: upt_Suc)
  have l: "length (added (\<lambda>s. False) (map (\<lambda>i. Add ''hello'' (int i) ''id'') [0..<101])) = 101"
    by (simp add: a del: upt_Suc)
  from add_keeps_newest_hundred[OF h(1,2,3) v, of "\<lambda>s. False"]
  have "length (added (\<lambda>s. False) (map (\<lambda>i. Add ''hello'' (int i) ''id'') [0..<101])) > 100 \<longrightarrow>
      stored_history (perform_all (\<lambda>s. False) (map (\<lambda>i. Add ''hello'' (int i) ''id'') [0..<101]) empty_world)
      = rev (drop (length (added (\<lambda>s. False) (map (\<lambda>i. Add ''hello'' (int i) ''id'') [0..<101])) - 100)
           (added (\<lambda>s. False) (map (\<lambda>i. Add ''hello'' (int i) ''id'') [0..<101])))"
    by blast
  then have "stored_history (perform_all (\<lambda>s. False) (map (\<lambda>i. Add ''hello'' (int i) ''id'') [0..<101]) empty_world)
      = rev (drop 1 (added (\<lambda>s. False) (map (\<lambda>i. Add ''hello'' (int i) ''id'') [0..<101])))"
    unfolding l by simp
  also have "\<dots> = map (\<lambda>i. \<lparr>content = ''hello'', timestamp = int i, item_id = ''id'', item_type = Some ''text''\<rparr>)
           (rev [1..<101])"
    by (simp only: a drop_map d rev_map)
  finally show ?thesis using h v by simp
qed

subsection \<open>Export and import\<close>

lemma importFromJson_export:
  assumes "parse (stringify (exportData t h)) = Some (exportData t h)"
  shows "importFromJson parse (exportAsJson stringify t h) = Inr h"
  using assms
  by (simp add: importFromJson_def exportAsJson_def exportData_def get_prop_def isArray_def elements_def)

lemma import_history_healthy:
  assumes "healthy w" and "importFromJson parse text = Inr items"
  shows "fst (import_history parse text w) = Inr items"
    and "stored_history (snd (import_history parse text w))
           = take 100 (items @ elements (visible w QR_HISTORY))"
    and "healthy (snd (import_history parse text w))"
    and "coherent (snd (import_history parse text w))"
proof -
  let ?h = "elements (visible w QR_HISTORY)"
  obtain r1 w1 where gh: "getHistory w = (r1, w1)" by force
  have g: "r1 = Inr ?h" "healthy w1" "local_items w1 = local_items w"
    using getHistory_healthy[OF assms(1)] gh by simp_all
  let ?w2 = "mutate_cached (take 100 (items @ ?h)) w1"
  have h2: "healthy ?w2" using g by simp
  obtain r3 w3 where sv: "set_value ''qrHistory'' (Arr (take 100 (items @ ?h))) ?w2 = (r3, w3)" by force
  have s: "r3 = Inr True" "healthy w3"
    "local_items w3 = (local_items ?w2)(''qrHistory'' \<mapsto> Arr (take 100 (items @ ?h)))"
    "cache w3 = (cache ?w2)(''qrHistory'' \<mapsto> Arr (take 100 (items @ ?h)))"
    using set_value_healthy[OF h2, of "''qrHistory''" "Arr (take 100 (items @ ?h))"] sv by simp_all
  have res: "import_history parse text w
        = (Inr items, w3\<lparr>trace := trace w3 @
             [Emit ''historyImported'' (Obj [(''count'', Num (int (length items)))])]\<rparr>)"
    using assms(2) gh g(1) sv s(1) by (simp add: import_history_def Let_def cap_length_take)
  show "fst (import_history parse text w) = Inr items" by (simp add: res)
  show "stored_history (snd (import_history parse text w)) = take 100 (items @ ?h)"
    using s(3) by (simp add: res stored_history_def QR_HISTORY_def elements_def)
  show "healthy (snd (import_history parse text w))" using s(2) by (simp add: res healthy_def)
  show "coherent (snd (import_history parse text w))"
    using s(3,4) by (simp add: res coherent_def stored_history_def QR_HISTORY_def cache_get_def)
qed

text \<open>
  C9: let \<open>h\<close> be a history (at most 100 entries). If the platform's \<open>parse\<close> gives back
  the document that \<open>stringify\<close> was given, then importing the text that \<open>exportAsJson\<close>
  makes of \<open>h\<close> into an empty history, on a storage that does not fail, stores \<open>h\<close>
  itself: the same contents in the same order.
\<close>

theorem export_import_roundtrip:
  assumes "healthy w" and "elements (visible w QR_HISTORY) = []"
    and "length h \<le> 100"
    and "parse (stringify (exportData t h)) = Some (exportData t h)"
  shows "fst (import_history parse (exportAsJson stringify t h) w) = Inr h
       \<and> stored_history (snd (import_history parse (exportAsJson stringify t h) w)) = h
       \<and> map content (stored_history (snd (import_history parse (exportAsJson stringify t h) w)))
           = map content h"
proof -
  have i: "importFromJson parse (exportAsJson stringify t h) = Inr h"
    using importFromJson_export[where parse = parse and stringify = stringify and t = t and h = h]
      assms(4) by simp
  show ?thesis
    using import_history_healthy(1,2)[OF assms(1) i] assms(2,3) by simp
qed

theorem export_import_roundtrip_witness:
  "healthy empty_world \<and> elements (visible empty_world QR_HISTORY) = []
   \<and> map content (stored_history (snd (import_history Some
        (exportAsJson (\<lambda>v. v) ''2024-01-01T00:00:00.000Z''
           [\<lparr>content = ''https://example.com'', timestamp = 2, item_id = ''2-b'', item_type = Some ''url''\<rparr>,
            \<lparr>content = ''hello world'', timestamp = 1, item_id = ''1-a'', item_type = None\<rparr>])
        empty_world)))
     = [''https://example.com'', ''hello world'']"
proof -
  have h: "healthy empty_world" "elements (visible empty_world QR_HISTORY) = []"
    by (simp_all add: healthy_def empty_world_def visible_def cache_get_def elements_def)
  from export_import_roundtrip[OF h, where parse = Some and stringify = "\<lambda>v. v"
      and t = "''2024-01-01T00:00:00.000Z''"
      and h = "[\<lparr>content = ''https://example.com'', timestamp = 2, item_id = ''2-b'', item_type = Some ''url''\<rparr>,
            \<lparr>content = ''hello world'', timestamp = 1, item_id = ''1-a'', item_type = None\<rparr>]"] h
  show ?thesis by simp
qed

text \<open>
  \<^verbatim>\<open>export('json')\<close> reads the history through \<open>getAll\<close>, which sorts it. For a
  history that is newest first by its timestamps, under the initial view, the text it
  returns is the one \<open>exportAsJson\<close> makes of the stored history.
\<close>

lemma sort_cmp_sorted:
  assumes "sorted_wrt (\<lambda>a b. cmp a b \<le> 0) xs"
  shows "sort_cmp cmp xs = xs"
  using assms
proof (induction xs)
  case Nil
  show ?case by (simp add: sort_cmp_def)
next
  case (Cons x xs)
  then have ih: "sort_cmp cmp xs = xs" by simp
  have "sort_cmp cmp (x # xs) = insert_cmp cmp x (sort_cmp cmp xs)" by (simp add: sort_cmp_def)
  also have "\<dots> = insert_cmp cmp x xs" by (simp add: ih)
  also have "\<dots> = x # xs" using Cons.prems by (cases xs) auto
  finally show ?case .
qed

lemma filterAndSort_newest_first:
  assumes "sorted_wrt (\<lambda>a b. timestamp b \<le> timestamp a) h"
  shows "filterAndSort lc initial_view h = h"
proof -
  have "sorted_wrt (\<lambda>a b. - (timestamp a - timestamp b) \<le> 0) h"
    using assms by (simp add: sorted_wrt_iff_nth_less)
  from sort_cmp_sorted[OF this] show ?thesis
    by (simp add: filterAndSort_def initial_view_def Let_def)
qed

lemma export_history_newest_first:
  assumes "healthy w" and "sorted_wrt (\<lambda>a b. timestamp b \<le> timestamp a) (elements (visible w QR_HISTORY))"
  shows "fst (export_history lc stringify t initial_view w)
           = Inr (exportAsJson stringify t (elements (visible w QR_HISTORY)))"
proof -
  obtain r1 w1 where gh: "getHistory w = (r1, w1)" by force
  have g: "r1 = Inr (elements (visible w QR_HISTORY))"
    using getHistory_healthy(1)[OF assms(1)] gh by simp
  show ?thesis
    using gh g filterAndSort_newest_first[OF assms(2), of lc]
    by (simp add: export_history_def getAll_def Let_def)
qed

subsection \<open>Failures that are reported as storage errors\<close>

lemma findIndex_Some:
  "findIndex P xs = Some i \<Longrightarrow> i < length xs \<and> P (xs ! i) \<and> (\<forall>j < i. \<not> P (xs ! j))"
proof (induction xs arbitrary: i)
  case Nil
  then show ?case by simp
next
  case (Cons x xs)
  show ?case
  proof (cases "P x")
    case True
    with Cons.prems show ?thesis by simp
  next
    case False
    with Cons.prems obtain k where k: "findIndex P xs = Some k" "i = Suc k" by auto
    from Cons.IH[OF k(1)] False k(2) show ?thesis by (auto simp: less_Suc_eq_0_disj)
  qed
qed

lemma findIndex_None: "findIndex P xs = None \<longleftrightarrow> (\<forall>x \<in> set xs. \<not> P x)"
  by (induction xs) auto

lemma delete_present:
  assumes "healthy w"
    and "findIndex (\<lambda>item. item_id item = ident) (elements (visible w QR_HISTORY)) = Some i"
  shows "fst (delete ident w) = Inr (elements (visible w QR_HISTORY) ! i)"
    and "stored_history (snd (delete ident w))
           = take i (elements (visible w QR_HISTORY)) @ drop (Suc i) (elements (visible w QR_HISTORY))"
    and "item_id (elements (visible w QR_HISTORY) ! i) = ident"
proof -
  let ?h = "elements (visible w QR_HISTORY)"
  obtain r1 w1 where gh: "getHistory w = (r1, w1)" by force
  have g: "r1 = Inr ?h" "healthy w1" "local_items w1 = local_items w"
    using getHistory_healthy[OF assms(1)] gh by simp_all
  let ?w2 = "mutate_cached (splice1 i ?h) w1"
  have h2: "healthy ?w2" using g by simp
  obtain r3 w3 where sv: "set_value ''qrHistory'' (Arr (splice1 i ?h)) ?w2 = (r3, w3)" by force
  have s: "r3 = Inr True"
    "local_items w3 = (local_items ?w2)(''qrHistory'' \<mapsto> Arr (splice1 i ?h))"
    using set_value_healthy[OF h2, of "''qrHistory''" "Arr (splice1 i ?h)"] sv by simp_all
  have res: "delete ident w
        = (Inr (?h ! i), w3\<lparr>trace := trace w3 @
             [Emit ''historyDeleted'' (Obj [(''id'', Str ident), (''item'', Item (?h ! i))])]\<rparr>)"
    using assms(2) gh g(1) sv s(1) by (simp add: delete_def Let_def)
  show "fst (delete ident w) = Inr (?h ! i)" by (simp add: res)
  show "stored_history (snd (delete ident w)) = take i ?h @ drop (Suc i) ?h"
    using s(2) by (simp add: res stored_history_def QR_HISTORY_def elements_def splice1_def)
  show "item_id (?h ! i) = ident" using findIndex_Some[OF assms(2)] by simp
qed

lemma handleError_storage_healthy:
  assumes "healthy w"
  shows "handleError (AppError STORAGE_ERROR c d) w
           = (AppError STORAGE_ERROR c d,
              (snd (next_fault (addToHistory (AppError STORAGE_ERROR c d) w)))\<lparr>local_items := Map.empty\<rparr>)"
proof -
  have "healthy (addToHistory (AppError STORAGE_ERROR c d) w)"
    using assms by (simp add: healthy_def addToHistory_def Let_def)
  from healthy_next_fault(1)[OF this] show ?thesis
    by (cases "next_fault (addToHistory (AppError STORAGE_ERROR c d) w)")
       (simp add: handleError_def tryRecovery_def tryStorageRecovery_def Let_def)
qed

lemma throw_wrapped_storage_healthy:
  assumes "healthy w"
  shows "fst (throw_wrapped STORAGE_ERROR c e w) = Inl (AppError STORAGE_ERROR c (Some e))"
    and "local_items (snd (throw_wrapped STORAGE_ERROR c e w)) = Map.empty"
  by (simp_all add: throw_wrapped_def handleError_storage_healthy[OF assms])

lemma delete_absent:
  assumes "healthy w"
    and "\<forall>item \<in> set (elements (visible w QR_HISTORY)). item_id item \<noteq> ident"
  shows "fst (delete ident w)
           = Inl (AppError STORAGE_ERROR 8202 (Some (AppError VALIDATION_ERROR 8201 None)))"
    and "local_items (snd (delete ident w)) = Map.empty"
proof -
  let ?h = "elements (visible w QR_HISTORY)"
  obtain r1 w1 where gh: "getHistory w = (r1, w1)" by force
  have g: "r1 = Inr ?h" "healthy w1"
    using getHistory_healthy[OF assms(1)] gh by simp_all
  have n: "findIndex (\<lambda>item. item_id item = ident) ?h = None"
    using assms(2) by (simp add: findIndex_None)
  have res: "delete ident w = throw_wrapped STORAGE_ERROR 8202 (AppError VALIDATION_ERROR 8201 None) w1"
    using gh g(1) n by (simp add: delete_def)
  show "fst (delete ident w)
           = Inl (AppError STORAGE_ERROR 8202 (Some (AppError VALIDATION_ERROR 8201 None)))"
    and "local_items (snd (delete ident w)) = Map.empty"
    using throw_wrapped_storage_healthy[OF g(2)] by (simp_all add: res)
qed

lemma saveSettings_rejected:
  assumes "healthy w" and "validateSettings newSettings = Some e"
  shows "fst (saveSettings newSettings cfg w) = Inl (AppError STORAGE_ERROR 4002 (Some e))"
    and "fst (snd (saveSettings newSettings cfg w)) = cfg"
    and "local_items (snd (snd (saveSettings newSettings cfg w))) = Map.empty"
proof -
  obtain r1 w1 where t: "(throw_wrapped STORAGE_ERROR 4002 e w :: (thrown + jsval) \<times> world) = (r1, w1)"
    by force
  have f: "r1 = Inl (AppError STORAGE_ERROR 4002 (Some e))" "local_items w1 = Map.empty"
    using throw_wrapped_storage_healthy[OF assms(1), of 4002 e] t
    by (simp_all add: throw_wrapped_def split: prod.splits)
  have res: "saveSettings newSettings cfg w = (r1, cfg, w1)"
    using assms(2) t by (simp add: saveSettings_def)
  show "fst (saveSettings newSettings cfg w) = Inl (AppError STORAGE_ERROR 4002 (Some e))"
    and "fst (snd (saveSettings newSettings cfg w)) = cfg"
    and "local_items (snd (snd (saveSettings newSettings cfg w))) = Map.empty"
    using f by (simp_all add: res)
qed

lemma saveSettings_accepted:
  assumes "healthy w" and "validateSettings newSettings = None"
  shows "fst (saveSettings newSettings cfg w) = Inr (spread (currentSettings cfg) newSettings)"
    and "currentSettings (fst (snd (saveSettings newSettings cfg w)))
           = spread (currentSettings cfg) newSettings"
    and "local_items (snd (snd (saveSettings newSettings cfg w))) QR_SETTINGS
           = Some (spread (currentSettings cfg) newSettings)"
    and "trace (snd (snd (saveSettings newSettings cfg w)))
           = trace w @ [SetAttempt QR_SETTINGS (spread (currentSettings cfg) newSettings) False,
                        Emit ''settingsSaved'' (spread (currentSettings cfg) newSettings)]"
proof -
  let ?m = "spread (currentSettings cfg) newSettings"
  obtain r1 w1 where sv: "set_value QR_SETTINGS ?m w = (r1, w1)" by force
  have s: "r1 = Inr True" "local_items w1 = (local_items w)(QR_SETTINGS \<mapsto> ?m)"
    "trace w1 = trace w @ [SetAttempt QR_SETTINGS ?m False]"
    using set_value_healthy[OF assms(1), of QR_SETTINGS ?m] sv by simp_all
  have res: "saveSettings newSettings cfg w
        = (Inr ?m, cfg\<lparr>currentSettings := ?m\<rparr>, w1\<lparr>trace := trace w1 @ [Emit ''settingsSaved'' ?m]\<rparr>)"
    using assms(2) sv s(1) by (simp add: saveSettings_def saveSettings_sm_def Let_def)
  show "fst (saveSettings newSettings cfg w) = Inr ?m" by (simp add: res)
  show "currentSettings (fst (snd (saveSettings newSettings cfg w))) = ?m" by (simp add: res)
  show "local_items (snd (snd (saveSettings newSettings cfg w))) QR_SETTINGS = Some ?m"
    using s(2) by (simp add: res)
  show "trace (snd (snd (saveSettings newSettings cfg w)))
           = trace w @ [SetAttempt QR_SETTINGS ?m False, Emit ''settingsSaved'' ?m]"
    using s(3) by (simp add: res)
qed

lemma validateSettings_object:
  assumes "validateSettings v = None"
  shows "\<exists>kvs. v = Obj kvs"
  using assms
  by (cases v)
     (simp_all add: validateSettings_def validation_errors_def falsy_def get_prop_def split: if_splits)

lemma valid_colors: "isValidColor (Str ''#000000'')" "isValidColor (Str ''#ffffff'')"
  by code_simp+

lemma invalid_colors: "\<not> isValidColor Undefined" "\<not> isValidColor (Str ''red'')"
  by code_simp+

lemma validate_examples:
  "validateSettings (Obj DEFAULT_SETTINGS) = None"
  "validateSettings small_size = Some (AppError VALIDATION_ERROR 4102 None)"
  "validateSettings (Obj [(''size'', Num 300)]) = Some (AppError VALIDATION_ERROR 4102 None)"
  "validateSettings (spread (Obj DEFAULT_SETTINGS) (Obj [(''size'', Num 300)])) = None"
  by (simp_all add: validateSettings_def validation_errors_def DEFAULT_SETTINGS_def small_size_def
      falsy_def get_prop_def valid_colors invalid_colors QR_CORRECT_LEVELS_def spread_def own_props_def)

text \<open>
  C1, on the code. With the defaults in memory and in the store, \<open>saveSettings\<close> of
  settings with \<open>size = 50\<close> fails, but what it throws is an \<open>AppError\<close> of type
  \<open>STORAGE_ERROR\<close> (code 4002) that only carries the validation error (code 4102), and
  handling that error runs the storage recovery, which clears \<^verbatim>\<open>chrome.storage.local\<close>:
  the persisted settings are gone, only the settings in memory are left as they were.
  Moreover the input itself is validated, not the merged settings: the partial object
  \<open>{size: 300}\<close> is rejected although merged over the current settings it is valid.
\<close>

theorem saveSettings_invalid_clears_store:
  "fst (saveSettings small_size default_config settings_world)
     = Inl (AppError STORAGE_ERROR 4002 (Some (AppError VALIDATION_ERROR 4102 None)))
   \<and> fst (snd (saveSettings small_size default_config settings_world)) = default_config
   \<and> local_items settings_world QR_SETTINGS = Some (Obj DEFAULT_SETTINGS)
   \<and> local_items (snd (snd (saveSettings small_size default_config settings_world))) QR_SETTINGS = None
   \<and> validateSettings (spread (currentSettings default_config) (Obj [(''size'', Num 300)])) = None
   \<and> fst (saveSettings (Obj [(''size'', Num 300)]) default_config settings_world)
     = Inl (AppError STORAGE_ERROR 4002 (Some (AppError VALIDATION_ERROR 4102 None)))"
  by (simp add: saveSettings_def validate_examples throw_wrapped_def handleError_def
      tryRecovery_def tryStorageRecovery_def addToHistory_def next_fault_def settings_world_def
      empty_world_def Let_def default_config_def maxHistorySize_def QR_SETTINGS_def)

text \<open>
  C3, on the code. With two entries stored, \<open>delete\<close> of an id that is not in the history
  fails, but with an \<open>AppError\<close> of type \<open>STORAGE_ERROR\<close> (code 8202) that only carries
  the validation error (code 8201); handling it runs the storage recovery, which clears
  \<^verbatim>\<open>chrome.storage.local\<close>, so that once the cache entry has expired the history is empty.
  \<open>StorageManager.deleteFromHistory\<close> does what the claim says: for an index out of
  range it throws the validation error itself and leaves the store alone.
\<close>

theorem delete_missing_id_clears_store:
  "fst (delete ''9-z'' history_world)
     = Inl (AppError STORAGE_ERROR 8202 (Some (AppError VALIDATION_ERROR 8201 None)))
   \<and> local_items history_world QR_HISTORY = Some (Arr two_entries)
   \<and> local_items (snd (delete ''9-z'' history_world)) QR_HISTORY = None
   \<and> fst (getHistory (expire QR_HISTORY (snd (delete ''9-z'' history_world)))) = Inr []
   \<and> fst (deleteFromHistory 7 history_world) = Inl (AppError VALIDATION_ERROR 3001 None)
   \<and> local_items (snd (deleteFromHistory 7 history_world)) QR_HISTORY = Some (Arr two_entries)"
  by (simp add: delete_def deleteFromHistory_def getHistory_def get_value_def getFromStorage_def
      cache_get_def next_fault_def history_world_def empty_world_def two_entries_def
      throw_wrapped_def throw_handled_def handleError_def tryRecovery_def tryStorageRecovery_def
      addToHistory_def maxHistorySize_def Let_def isArray_def elements_def expire_def QR_HISTORY_def)

subsection \<open>Searching the history\<close>

lemma set_insert_cmp: "set (insert_cmp cmp x xs) = insert x (set xs)"
  by (induction xs) auto

lemma set_sort_cmp: "set (sort_cmp cmp xs) = set xs"
  by (induction xs) (simp_all add: sort_cmp_def set_insert_cmp)

lemma filterAndSort_content:
  assumes "searchQuery vw \<noteq> []" and "item \<in> set (filterAndSort lc vw h)"
  shows "includes_str (toLowerCase (content item)) (searchQuery vw)"
  using assms by (auto simp: filterAndSort_def Let_def set_sort_cmp split: if_splits)

lemma search_by_content_only:
  assumes "healthy w" and "toLowerCase query \<noteq> []"
  shows "\<exists>res. fst (search lc query vw w) = Inr res
           \<and> (\<forall>item \<in> set res. includes_str (toLowerCase (content item)) (toLowerCase query))"
proof -
  let ?vw = "vw\<lparr>searchQuery := toLowerCase query\<rparr>"
  obtain r1 w1 where gh: "getHistory w = (r1, w1)" by force
  have g: "r1 = Inr (elements (visible w QR_HISTORY))"
    using getHistory_healthy(1)[OF assms(1)] gh by simp
  have ga: "fst (getAll lc ?vw w) = Inr (filterAndSort lc ?vw (elements (visible w QR_HISTORY)))"
    using gh g by (simp add: getAll_def Let_def)
  obtain w2 where ga2: "getAll lc ?vw w = (Inr (filterAndSort lc ?vw (elements (visible w QR_HISTORY))), w2)"
    using ga by (cases "getAll lc ?vw w") simp
  have "fst (search lc query vw w)
          = Inr (filter (\<lambda>item.
                      includes_str (toLowerCase (content item)) (toLowerCase query) \<or>
                      (case item_type item of
                         None \<Rightarrow> False
                       | Some t \<Rightarrow> t \<noteq> [] \<and> includes_str (toLowerCase t) (toLowerCase query)))
                  (filterAndSort lc ?vw (elements (visible w QR_HISTORY))))"
    by (simp add: search_def Let_def ga2 cong: option.case_cong)
  moreover have "includes_str (toLowerCase (content item)) (toLowerCase query)"
    if "item \<in> set (filterAndSort lc ?vw (elements (visible w QR_HISTORY)))" for item
    using filterAndSort_content[of ?vw item lc] that assms(2) by simp
  ultimately show ?thesis by auto
qed

lemma lower_examples:
  "toLowerCase ''text'' = ''text''"
  "toLowerCase ''hello world'' = ''hello world''"
  "toLowerCase ''https://example.com'' = ''https://example.com''"
  by code_simp+

lemma includes_examples:
  "includes_str ''text'' ''text''"
  "\<not> includes_str ''hello world'' ''text''"
  "\<not> includes_str ''https://example.com'' ''text''"
  by code_simp+

lemma getHistory_history_world:
  "getHistory history_world
     = (Inr two_entries, history_world\<lparr>cache := [QR_HISTORY \<mapsto> Arr two_entries]\<rparr>)"
  by (simp add: getHistory_def get_value_def getFromStorage_def cache_get_def next_fault_def
      history_world_def empty_world_def Let_def isArray_def elements_def)

lemma filterAndSort_text:
  "filterAndSort lc (initial_view\<lparr>searchQuery := ''text''\<rparr>) two_entries = []"
  apply (simp add: filterAndSort_def)
  apply (simp add: two_entries_def initial_view_def Let_def lower_examples includes_examples sort_cmp_def)
  done

lemma getAll_text:
  "fst (getAll lc (initial_view\<lparr>searchQuery := ''text''\<rparr>) history_world) = Inr []"
  by (simp add: getAll_def getHistory_history_world filterAndSort_text)

text \<open>
  C7, on the code. The stored history has an entry with content \<open>hello world\<close> and type
  \<open>text\<close>. The query \<open>text\<close> is a substring of that type (not of the content), yet
  \<open>search\<close> returns nothing: it stores the query in \<open>searchQuery\<close> and reads the history
  through \<open>getAll\<close>, whose \<open>filterAndSort\<close> has already dropped every entry whose content
  does not contain the query, before the test on the type is made.
\<close>

theorem search_misses_type_match:
  "item_type (two_entries ! 1) = Some ''text''
   \<and> includes_str (toLowerCase ''text'') (toLowerCase ''text'')
   \<and> \<not> includes_str (toLowerCase (content (two_entries ! 1))) (toLowerCase ''text'')
   \<and> fst (search (\<lambda>a b. 0) ''text'' initial_view history_world) = Inr []"
  using getAll_text[of "\<lambda>a b. 0"]
  by (cases "getAll (\<lambda>a b. 0) (initial_view\<lparr>searchQuery := ''text''\<rparr>) history_world")
     (simp add: search_def lower_examples includes_examples Let_def two_entries_def)

subsection \<open>What the regular expressions accept\<close>

lemma nullable_lang: "nullable r \<longleftrightarrow> [] \<in> lang r"
  by (induction r) (auto simp: conc_def intro: star.intros)

lemma left_quotient_conc:
  "left_quotient c (conc A B)
     = conc (left_quotient c A) B \<union> (if [] \<in> A then left_quotient c B else {})"
proof (intro set_eqI iffI)
  fix zs assume "zs \<in> left_quotient c (conc A B)"
  then obtain xs ys where d: "c # zs = xs @ ys" "xs \<in> A" "ys \<in> B"
    by (auto simp: left_quotient_def conc_def)
  show "zs \<in> conc (left_quotient c A) B \<union> (if [] \<in> A then left_quotient c B else {})"
  proof (cases xs)
    case Nil
    with d show ?thesis by (auto simp: left_quotient_def)
  next
    case (Cons x xs')
    with d have "x = c" "zs = xs' @ ys" by simp_all
    with d Cons show ?thesis by (auto simp: left_quotient_def conc_def)
  qed
next
  fix zs assume "zs \<in> conc (left_quotient c A) B \<union> (if [] \<in> A then left_quotient c B else {})"
  then consider "zs \<in> conc (left_quotient c A) B" | "[] \<in> A" "zs \<in> left_quotient c B"
    by (auto split: if_splits)
  then show "zs \<in> left_quotient c (conc A B)"
  proof cases
    case 1
    then obtain xs ys where "zs = xs @ ys" "c # xs \<in> A" "ys \<in> B"
      by (auto simp: left_quotient_def conc_def)
    then have "c # zs = (c # xs) @ ys \<and> c # xs \<in> A \<and> ys \<in> B" by simp
    then show ?thesis unfolding left_quotient_def conc_def by blast
  next
    case 2
    then have "c # zs = [] @ (c # zs) \<and> [] \<in> A \<and> c # zs \<in> B" by (simp add: left_quotient_def)
    then show ?thesis unfolding left_quotient_def conc_def by blast
  qed
qed

lemma star_cons:
  assumes "zs \<in> star A" and "zs = c # ws"
  shows "\<exists>xs ys. ws = xs @ ys \<and> c # xs \<in> A \<and> ys \<in> star A"
  using assms
proof (induction arbitrary: ws rule: star.induct)
  case star_empty
  then show ?case by simp
next
  case (star_more xs ys)
  show ?case
  proof (cases xs)
    case Nil
    with star_more show ?thesis by simp
  next
    case (Cons x xs')
    with star_more.prems have "x = c" "ws = xs' @ ys" by simp_all
    with Cons star_more.hyps show ?thesis by blast
  qed
qed

lemma left_quotient_star: "left_quotient c (star A) = conc (left_quotient c A) (star A)"
proof (intro set_eqI iffI)
  fix ws assume "ws \<in> left_quotient c (star A)"
  then have "c # ws \<in> star A" by (simp add: left_quotient_def)
  from star_cons[OF this refl] show "ws \<in> conc (left_quotient c A) (star A)"
    by (auto simp: conc_def left_quotient_def)
next
  fix ws assume "ws \<in> conc (left_quotient c A) (star A)"
  then obtain xs ys where "ws = xs @ ys" "c # xs \<in> A" "ys \<in> star A"
    by (auto simp: conc_def left_quotient_def)
  then have "(c # xs) @ ys \<in> star A" by (intro star_more)
  with \<open>ws = xs @ ys\<close> show "ws \<in> left_quotient c (star A)" by (simp add: left_quotient_def)
qed

lemma deriv_lang: "lang (deriv c r) = left_quotient c (lang r)"
proof (induction r)
  case (Seq r s)
  then show ?case by (simp add: left_quotient_conc nullable_lang)
next
  case (Star r)
  then show ?case by (simp add: left_quotient_star)
qed (auto simp: left_quotient_def)

lemma test_lang: "test r s \<longleftrightarrow> s \<in> lang r"
  by (induction s arbitrary: r) (simp_all add: nullable_lang deriv_lang left_quotient_def)

lemma concI: "xs \<in> A \<Longrightarrow> ys \<in> B \<Longrightarrow> xs @ ys \<in> conc A B"
  by (auto simp: conc_def)

lemma concE: "zs \<in> conc A B \<Longrightarrow> \<exists>xs ys. zs = xs @ ys \<and> xs \<in> A \<and> ys \<in> B"
  by (auto simp: conc_def)

lemma lang_star_atom: "lang (Star (Atom k)) = all_in k"
proof (intro set_eqI iffI)
  fix s assume "s \<in> lang (Star (Atom k))"
  then have "s \<in> star (lang (Atom k))" by simp
  then show "s \<in> all_in k"
    by (induction rule: star.induct) (auto simp: all_in_def)
next
  fix s assume "s \<in> all_in k"
  then have "s \<in> star (lang (Atom k))"
  proof (induction s)
    case Nil
    show ?case by (rule star_empty)
  next
    case (Cons c s)
    then have "[c] \<in> lang (Atom k)" "s \<in> star (lang (Atom k))" by (simp_all add: all_in_def)
    then have "[c] @ s \<in> star (lang (Atom k))" by (rule star_more)
    then show ?case by simp
  qed
  then show "s \<in> lang (Star (Atom k))" by simp
qed

lemma lang_plus: "lang (plus_rx (Atom k)) = {s. s \<noteq> [] \<and> s \<in> all_in k}"
proof (intro set_eqI iffI)
  fix s assume "s \<in> lang (plus_rx (Atom k))"
  then have "s \<in> conc (lang (Atom k)) (all_in k)"
    by (simp only: plus_rx_def lang.simps(4) lang_star_atom)
  then show "s \<in> {s. s \<noteq> [] \<and> s \<in> all_in k}" by (auto simp: conc_def all_in_def)
next
  fix s assume "s \<in> {s. s \<noteq> [] \<and> s \<in> all_in k}"
  then obtain c t where s: "s = [c] @ t" and "in_cls k c" "t \<in> all_in k"
    by (cases s) (auto simp: all_in_def)
  then have "[c] \<in> lang (Atom k)" by simp
  moreover from \<open>t \<in> all_in k\<close> have "t \<in> lang (Star (Atom k))" by (simp only: lang_star_atom)
  ultimately have "[c] @ t \<in> lang (Seq (Atom k) (Star (Atom k)))"
    unfolding lang.simps(4) by (rule concI)
  with s show "s \<in> lang (plus_rx (Atom k))" by (simp only: plus_rx_def)
qed

lemma lang_exactly: "lang (exactly n (Atom k)) = {s. length s = n \<and> s \<in> all_in k}"
proof (induction n)
  case 0
  show ?case by (auto simp: all_in_def)
next
  case (Suc n)
  show ?case
  proof (intro set_eqI iffI)
    fix s assume "s \<in> lang (exactly (Suc n) (Atom k))"
    with Suc show "s \<in> {s. length s = Suc n \<and> s \<in> all_in k}"
      by (auto simp: conc_def all_in_def)
  next
    fix s assume "s \<in> {s. length s = Suc n \<and> s \<in> all_in k}"
    then obtain c t where s: "s = [c] @ t" and "in_cls k c" "length t = n" "t \<in> all_in k"
      by (cases s) (auto simp: all_in_def)
    with Suc have "[c] \<in> lang (Atom k)" "t \<in> lang (exactly n (Atom k))" by simp_all
    then have "[c] @ t \<in> conc (lang (Atom k)) (lang (exactly n (Atom k)))" by (rule concI)
    with s show "s \<in> lang (exactly (Suc n) (Atom k))" by simp
  qed
qed

lemma lang_at_least: "lang (at_least n (Atom k)) = {s. length s \<ge> n \<and> s \<in> all_in k}"
proof (intro set_eqI iffI)
  fix s assume "s \<in> lang (at_least n (Atom k))"
  then have "s \<in> conc {s. length s = n \<and> s \<in> all_in k} (all_in k)"
    by (simp only: at_least_def lang.simps(4) lang_exactly lang_star_atom)
  then show "s \<in> {s. length s \<ge> n \<and> s \<in> all_in k}"
    by (auto simp: conc_def all_in_def)
next
  fix s assume a: "s \<in> {s. length s \<ge> n \<and> s \<in> all_in k}"
  then have "take n s \<in> lang (exactly n (Atom k))"
    by (auto simp: lang_exactly all_in_def dest: in_set_takeD)
  moreover from a have "drop n s \<in> all_in k"
    by (auto simp: all_in_def dest: in_set_dropD)
  then have "drop n s \<in> lang (Star (Atom k))" by (simp only: lang_star_atom)
  ultimately have "take n s @ drop n s \<in> conc (lang (exactly n (Atom k))) (lang (Star (Atom k)))"
    by (rule concI)
  then show "s \<in> lang (at_least n (Atom k))" by (simp only: at_least_def lang.simps(4) append_take_drop_id)
qed

lemma phone_cls_chars: "in_cls phone_cls c \<longleftrightarrow> digit_or_separator c"
  by (auto simp: phone_cls_def digit_or_separator_def)

lemma isPhoneNumber_phone_like: "isPhoneNumber s \<longleftrightarrow> phone_like s"
  by (simp add: isPhoneNumber_def phoneRegex_def test_lang lang_at_least phone_like_def
      phone_cls_chars all_in_def)

lemma isEmail_local_at_domain: "isEmail s \<longleftrightarrow> local_at_domain s"
proof -
  let ?N = "Except (Either Space (Chr (CHR ''@'')))"
  let ?P = "{s. s \<noteq> [] \<and> (\<forall>c \<in> set s. plain c)}"
  have p: "lang (plus_rx (Atom ?N)) = ?P"
    by (simp add: lang_plus all_in_def plain_def)
  have at: "lang (Atom (Chr (CHR ''@''))) = {''@''}" and dot: "lang (Atom (Chr (CHR ''.''))) = {''.''}"
    by auto
  have l: "lang emailRegex = conc ?P (conc {''@''} (conc ?P (conc {''.''} ?P)))"
    by (simp only: emailRegex_def Let_def lang.simps(4) p at dot)
  show ?thesis
  proof
    assume "isEmail s"
    then have "s \<in> conc ?P (conc {''@''} (conc ?P (conc {''.''} ?P)))"
      by (simp add: isEmail_def test_lang l)
    then obtain a r1 where 1: "s = a @ r1" "a \<in> ?P" "r1 \<in> conc {''@''} (conc ?P (conc {''.''} ?P))"
      using concE by blast
    then obtain r2 where 2: "r1 = ''@'' @ r2" "r2 \<in> conc ?P (conc {''.''} ?P)"
      using concE by blast
    then obtain b r3 where 3: "r2 = b @ r3" "b \<in> ?P" "r3 \<in> conc {''.''} ?P"
      using concE by blast
    then obtain d where 4: "r3 = ''.'' @ d" "d \<in> ?P"
      using concE by blast
    from 1 2 3 4 have "s = a @ ''@'' @ b @ ''.'' @ d \<and> a \<noteq> [] \<and> b \<noteq> [] \<and> d \<noteq> []
        \<and> (\<forall>c \<in> set (a @ b @ d). plain c)"
      by auto
    then show "local_at_domain s" unfolding local_at_domain_def by blast
  next
    assume "local_at_domain s"
    then obtain a b d where s: "s = a @ ''@'' @ b @ ''.'' @ d" and m: "a \<in> ?P" "b \<in> ?P" "d \<in> ?P"
      unfolding local_at_domain_def by auto
    have i: "''.'' \<in> {''.''}" "''@'' \<in> {''@''}" by simp_all
    have "''.'' @ d \<in> conc {''.''} ?P" by (rule concI[OF i(1) m(3)])
    then have "b @ ''.'' @ d \<in> conc ?P (conc {''.''} ?P)" by (rule concI[OF m(2)])
    then have "''@'' @ b @ ''.'' @ d \<in> conc {''@''} (conc ?P (conc {''.''} ?P))"
      by (rule concI[OF i(2)])
    then have "a @ ''@'' @ b @ ''.'' @ d \<in> conc ?P (conc {''@''} (conc ?P (conc {''.''} ?P)))"
      by (rule concI[OF m(1)])
    with s show "isEmail s" by (simp only: isEmail_def test_lang l)
  qed
qed

lemma email_examples:
  "isEmail ''a@b.com''" "\<not> isEmail ''+1 (555) 123-4567''" "\<not> isEmail ''hello world''"
  by code_simp+

lemma phone_examples:
  "isPhoneNumber ''+1 (555) 123-4567''" "\<not> isPhoneNumber ''hello world''"
  by code_simp+

text \<open>
  C6: \<open>detectContentType\<close> classifies by this precedence: \<open>url\<close> if the URL constructor
  accepts the content; otherwise \<open>email\<close> if it has the form local@domain.rest; otherwise
  \<open>phone\<close> if it consists of at least ten digits and separators; otherwise \<open>text\<close>. This
  is the type \<open>add\<close> gives the entry. For the four examples of the spec the results are
  \<open>url\<close>, \<open>email\<close>, \<open>phone\<close> and \<open>text\<close>, the constructor accepting the first and
  none of the other three.
\<close>

theorem detectContentType_precedence:
  "detectContentType url c =
     (if url c then ''url''
      else if local_at_domain c then ''email''
      else if phone_like c then ''phone''
      else ''text'')
   \<and> (healthy w \<and> c \<noteq> [] \<longrightarrow>
        map_sum id item_type (fst (add url c now new_id w)) = Inr (Some (detectContentType url c)))
   \<and> (url ''https://example.com'' \<longrightarrow> detectContentType url ''https://example.com'' = ''url'')
   \<and> (\<not> url ''a@b.com'' \<longrightarrow> detectContentType url ''a@b.com'' = ''email'')
   \<and> (\<not> url ''+1 (555) 123-4567'' \<longrightarrow> detectContentType url ''+1 (555) 123-4567'' = ''phone'')
   \<and> (\<not> url ''hello world'' \<longrightarrow> detectContentType url ''hello world'' = ''text'')"
proof -
  have p: "detectContentType url c =
     (if url c then ''url''
      else if local_at_domain c then ''email''
      else if phone_like c then ''phone''
      else ''text'')" for c
    by (simp add: detectContentType_def isUrl_def isEmail_local_at_domain isPhoneNumber_phone_like)
  have a: "map_sum id item_type (fst (add url c now new_id w)) = Inr (Some (detectContentType url c))"
    if "healthy w \<and> c \<noteq> []"
    using add_healthy(1)[of w c url now new_id] that by simp
  have e: "detectContentType url ''https://example.com'' = ''url''" if "url ''https://example.com''"
    using that by (simp add: detectContentType_def isUrl_def)
  have m: "detectContentType url ''a@b.com'' = ''email''" if "\<not> url ''a@b.com''"
    using that by (simp add: detectContentType_def isUrl_def email_examples)
  have ph: "detectContentType url ''+1 (555) 123-4567'' = ''phone''" if "\<not> url ''+1 (555) 123-4567''"
    using that by (simp add: detectContentType_def isUrl_def email_examples phone_examples)
  have t: "detectContentType url ''hello world'' = ''text''" if "\<not> url ''hello world''"
    using that by (simp add: detectContentType_def isUrl_def email_examples phone_examples)
  from p a e m ph t show ?thesis by blast
qed

lemma sample_url_examples:
  "sample_url ''https://example.com''" "\<not> sample_url ''a@b.com''"
  "\<not> sample_url ''+1 (555) 123-4567''" "\<not> sample_url ''hello world''"
  by (simp_all add: sample_url_def)

lemma healthy_empty_world: "healthy empty_world"
  by (simp add: healthy_def empty_world_def)

theorem detectContentType_precedence_witness:
  "healthy empty_world \<and> ''a@b.com'' \<noteq> []
   \<and> sample_url ''https://example.com'' \<and> \<not> sample_url ''a@b.com''
   \<and> \<not> sample_url ''+1 (555) 123-4567'' \<and> \<not> sample_url ''hello world''
   \<and> detectContentType sample_url ''https://example.com'' = ''url''
   \<and> detectContentType sample_url ''a@b.com'' = ''email''
   \<and> detectContentType sample_url ''+1 (555) 123-4567'' = ''phone''
   \<and> detectContentType sample_url ''hello world'' = ''text''
   \<and> map_sum id item_type (fst (add sample_url ''a@b.com'' 5 ''5-x'' empty_world)) = Inr (Some ''email'')"
proof -
  note t = detectContentType_precedence[where url = sample_url and c = "''a@b.com''"
      and w = empty_world and now = 5 and new_id = "''5-x''"]
  from t have e: "detectContentType sample_url ''a@b.com'' = ''email''"
    using sample_url_examples by blast
  from t have "map_sum id item_type (fst (add sample_url ''a@b.com'' 5 ''5-x'' empty_world))
      = Inr (Some (detectContentType sample_url ''a@b.com''))"
    using healthy_empty_world by blast
  with e have a: "map_sum id item_type (fst (add sample_url ''a@b.com'' 5 ''5-x'' empty_world))
      = Inr (Some ''email'')" by simp
  from t sample_url_examples healthy_empty_world e a show ?thesis by blast
qed

subsection \<open>The outcome of a recognition\<close>

lemma notifications_append [simp]: "notifications (xs @ ys) = notifications xs @ notifications ys"
  by (simp add: notifications_def)

lemma notifications_simps [simp]:
  "notifications [] = []"
  "notifications (SetAttempt k v b # tr) = notifications tr"
  "notifications (Notification m kd # tr) = (m, kd) # notifications tr"
  by (simp_all add: notifications_def)











subsection \<open>One capture per selection\<close>

lemma handleMouseUp_idem: "handleMouseUp (handleMouseUp r) = handleMouseUp r"
  by (simp add: handleMouseUp_def removeSelectionBox_def split: option.splits)

lemma funpow_idem:
  assumes "\<And>x. f (f x) = f x"
  shows "(f ^^ n) x = (if n = 0 then x else f x)"
  by (induction n) (simp_all add: assms)

lemma dispatch_handleMouseUp:
  "dispatch handleMouseUp r = (if listeners r = 0 then r else handleMouseUp r)"
  unfolding dispatch_def by (rule funpow_idem) (rule handleMouseUp_idem)

lemma handleMouseUp_count:
  "length (captures (handleMouseUp r)) + cycles_open (handleMouseUp r)
     \<le> length (captures r) + cycles_open r"
  by (simp add: handleMouseUp_def removeSelectionBox_def cycles_open_def split: option.splits)

lemma handleMouseDown_fields [simp]:
  "captures (handleMouseDown x y r) = captures r"
  "isSelectionMode (handleMouseDown x y r) = isSelectionMode r"
  "listeners (handleMouseDown x y r) = listeners r"
  by (simp_all add: handleMouseDown_def updateSelectionBox_def createSelectionBox_def Let_def)

lemma handleMouseMove_fields [simp]:
  "captures (handleMouseMove x y r) = captures r"
  "isSelectionMode (handleMouseMove x y r) = isSelectionMode r"
  "listeners (handleMouseMove x y r) = listeners r"
  by (simp_all add: handleMouseMove_def updateSelectionBox_def Let_def)

lemma funpow_keeps:
  assumes "\<And>x. g (f x) = g x"
  shows "g ((f ^^ n) x) = g x"
  by (induction n) (simp_all add: assms)

lemma dispatch_down_fields [simp]:
  "captures (dispatch (handleMouseDown x y) r) = captures r"
  "isSelectionMode (dispatch (handleMouseDown x y) r) = isSelectionMode r"
  unfolding dispatch_def by (rule funpow_keeps, simp)+

lemma dispatch_move_fields [simp]:
  "captures (dispatch (handleMouseMove x y) r) = captures r"
  "isSelectionMode (dispatch (handleMouseMove x y) r) = isSelectionMode r"
  unfolding dispatch_def by (rule funpow_keeps, simp)+

lemma switched_on_append [simp]: "switched_on (xs @ ys) = switched_on xs + switched_on ys"
  by (simp add: switched_on_def)

lemma step_count:
  assumes "length (captures (fst s)) + cycles_open (fst s) \<le> switched_on (trace (snd s))"
  shows "length (captures (fst (step e s))) + cycles_open (fst (step e s))
           \<le> switched_on (trace (snd (step e s)))"
proof (cases s)
  case (Pair r w)
  show ?thesis
  proof (cases e)
    case Toggle
    with Pair assms show ?thesis
      by (simp add: toggleSelectionMode_def removeSelectionBox_def showNotification_def
          cycles_open_def switched_on_def Let_def)
  next
    case (MouseDown x y)
    with Pair assms show ?thesis by (simp add: cycles_open_def)
  next
    case (MouseMove x y)
    with Pair assms show ?thesis by (simp add: cycles_open_def)
  next
    case MouseUp
    with Pair assms handleMouseUp_count[of r] show ?thesis
      by (simp add: dispatch_handleMouseUp)
  qed
qed

lemma run_count:
  assumes "length (captures (fst s)) + cycles_open (fst s) \<le> switched_on (trace (snd s))"
  shows "length (captures (fst (run es s))) + cycles_open (fst (run es s))
           \<le> switched_on (trace (snd (run es s)))"
  using assms
proof (induction es arbitrary: s)
  case Nil
  then show ?case by (simp add: run_def)
next
  case (Cons e es)
  from Cons.IH[OF step_count[OF Cons.prems]] show ?case by (simp add: run_def)
qed

lemma recognition_failed_recognizer [simp]: "fst (snd (recognition_failed e r w)) = r"
  by (simp add: recognition_failed_def split: prod.splits)

lemma addToRecognitionHistory_fields [simp]:
  "isSelectionMode (addToRecognitionHistory res env r) = isSelectionMode r"
  "selectionBox (addToRecognitionHistory res env r) = selectionBox r"
  "cursor (addToRecognitionHistory res env r) = cursor r"
  "captures (addToRecognitionHistory res env r) = captures r"
  by (simp_all add: addToRecognitionHistory_def Let_def)

lemma loadHtml2Canvas_fields [simp]:
  "isSelectionMode (loadHtml2Canvas env r) = isSelectionMode r"
  "selectionBox (loadHtml2Canvas env r) = selectionBox r"
  "cursor (loadHtml2Canvas env r) = cursor r"
  "captures (loadHtml2Canvas env r) = captures r"
  by (simp_all add: loadHtml2Canvas_def)

lemma recognizeFromRect_selection:
  "isSelectionMode (fst (snd (recognizeFromRect box env (r, w)))) = isSelectionMode r
   \<and> selectionBox (fst (snd (recognizeFromRect box env (r, w)))) = selectionBox r
   \<and> cursor (fst (snd (recognizeFromRect box env (r, w)))) = cursor r
   \<and> captures (fst (snd (recognizeFromRect box env (r, w)))) = captures r"
  by (simp add: recognizeFromRect_def Let_def split: option.splits prod.splits sum.splits)

text \<open>
  C4, as stated: a toggle command that arrives while a drag is in progress is ignored. It
  fails on the code: in the state reached by switching selection on, pressing the button
  and moving the pointer, the command changes the state; it switches selection mode off
  and removes the overlay.
\<close>

theorem toggle_while_dragging_counterexample:
  "isSelectionMode (fst dragging_state) \<and> selectionBox (fst dragging_state) \<noteq> None
   \<and> step Toggle dragging_state \<noteq> dragging_state
   \<and> \<not> isSelectionMode (fst (step Toggle dragging_state))
   \<and> selectionBox (fst (step Toggle dragging_state)) = None"
  by (simp add: dragging_state_def run_def new_recognizer_def empty_world_def toggleSelectionMode_def
      dispatch_def handleMouseDown_def handleMouseMove_def createSelectionBox_def updateSelectionBox_def
      removeSelectionBox_def showNotification_def Let_def)

text \<open>
  C4, amended. A toggle command that arrives during a drag is not ignored: it ends the
  selection (selection mode off, overlay removed, cursor reset), and a button release
  after it starts no capture. Along any sequence of commands and mouse events, the number
  of captures started, plus one if selection mode is on, never exceeds the number of times
  selection mode was switched on: at most one capture per selection. A button release
  during a drag starts exactly one capture, for the overlay's rectangle, and leaves the
  controller idle at once; the capture itself, whether it succeeds or fails, does not
  touch the selection state, so an idle controller is idle when the capture completes.
\<close>

theorem selection_single_flight:
  "(dragging r \<longrightarrow>
      idle (fst (toggleSelectionMode (r, w)))
      \<and> captures (fst (toggleSelectionMode (r, w))) = captures r
      \<and> captures (dispatch handleMouseUp (fst (toggleSelectionMode (r, w)))) = captures r)
   \<and> length (captures (fst (run events (new_recognizer, empty_world))))
        + cycles_open (fst (run events (new_recognizer, empty_world)))
        \<le> switched_on (trace (snd (run events (new_recognizer, empty_world))))
   \<and> (dragging r \<and> listeners r > 0 \<longrightarrow>
        idle (dispatch handleMouseUp r)
        \<and> captures (dispatch handleMouseUp r) = captures r @ [the (selectionBox r)])
   \<and> (idle q \<longrightarrow> idle (fst (snd (recognizeFromRect box env (q, w)))))"
proof -
  have a: "idle (fst (toggleSelectionMode (r, w)))
      \<and> captures (fst (toggleSelectionMode (r, w))) = captures r
      \<and> captures (dispatch handleMouseUp (fst (toggleSelectionMode (r, w)))) = captures r"
    if "dragging r"
    using that
    by (auto simp: dragging_def idle_def toggleSelectionMode_def removeSelectionBox_def
        showNotification_def dispatch_handleMouseUp handleMouseUp_def Let_def)
  have b: "length (captures (fst (run events (new_recognizer, empty_world))))
        + cycles_open (fst (run events (new_recognizer, empty_world)))
        \<le> switched_on (trace (snd (run events (new_recognizer, empty_world))))"
    by (rule run_count) (simp add: new_recognizer_def empty_world_def cycles_open_def switched_on_def)
  have c: "idle (dispatch handleMouseUp r)
        \<and> captures (dispatch handleMouseUp r) = captures r @ [the (selectionBox r)]"
    if "dragging r \<and> listeners r > 0"
    using that
    by (auto simp: dragging_def idle_def dispatch_handleMouseUp handleMouseUp_def removeSelectionBox_def)
  have d: "idle (fst (snd (recognizeFromRect box env (q, w))))" if "idle q"
    using that recognizeFromRect_selection[of box env q w] by (simp add: idle_def)
  from a b c d show ?thesis by blast
qed

lemma dragging_state_value:
  "fst dragging_state =
     new_recognizer\<lparr>isSelectionMode := True, cursor := Crosshair, listeners := 1,
       startX := 10, startY := 20, currentX := 110, currentY := 140,
       selectionBox := Some \<lparr>r_left = 10, r_top = 20, r_width = 100, r_height = 120\<rparr>\<rparr>"
  by (simp add: dragging_state_def run_def new_recognizer_def empty_world_def toggleSelectionMode_def
      dispatch_def handleMouseDown_def handleMouseMove_def createSelectionBox_def updateSelectionBox_def
      showNotification_def Let_def)

theorem selection_single_flight_witness:
  "dragging (fst dragging_state) \<and> listeners (fst dragging_state) > 0
   \<and> idle (fst (toggleSelectionMode (fst dragging_state, snd dragging_state)))
   \<and> idle (dispatch handleMouseUp (fst dragging_state))
   \<and> captures (dispatch handleMouseUp (fst dragging_state))
        = [\<lparr>r_left = 10, r_top = 20, r_width = 100, r_height = 120\<rparr>]
   \<and> idle (fst (snd (recognizeFromRect \<lparr>r_left = 10, r_top = 20, r_width = 100, r_height = 120\<rparr>
        sample_attempt (dispatch handleMouseUp (fst dragging_state), snd dragging_state))))"
proof -
  have d: "dragging (fst dragging_state)" "listeners (fst dragging_state) > 0"
    "captures (fst dragging_state) = []"
    "the (selectionBox (fst dragging_state)) = \<lparr>r_left = 10, r_top = 20, r_width = 100, r_height = 120\<rparr>"
    by (simp_all add: dragging_state_value dragging_def new_recognizer_def)
  note t = selection_single_flight[where r = "fst dragging_state" and w = "snd dragging_state"
      and q = "dispatch handleMouseUp (fst dragging_state)"
      and box = "\<lparr>r_left = 10, r_top = 20, r_width = 100, r_height = 120\<rparr>" and env = sample_attempt
      and events = "[]"]
  from t d(1,2) have i: "idle (dispatch handleMouseUp (fst dragging_state))"
    and c: "captures (dispatch handleMouseUp (fst dragging_state)) = captures (fst dragging_state) @ [the (selectionBox (fst dragging_state))]"
    and g: "idle (fst (toggleSelectionMode (fst dragging_state, snd dragging_state)))"
    by blast+
  from t i have q: "idle (fst (snd (recognizeFromRect \<lparr>r_left = 10, r_top = 20, r_width = 100, r_height = 120\<rparr>
        sample_attempt (dispatch handleMouseUp (fst dragging_state), snd dragging_state))))"
    by blast
  from d i c g q show ?thesis by simp
qed

end
